theory Spec2Isabelle
  imports Complex_Main "HOL-Library.Multiset" "HOL-Library.Word"
begin

section \<open>OTLP log viewer: flattening of log payloads and the time histogram\<close>

text \<open>
  The development embeds three pieces of the repository:
  \<^item> \<open>extractAnyValue\<close> and \<open>extractStringValue\<close> of \<^verbatim>\<open>types/otlp.ts\<close>;
  \<^item> the body of \<open>fetchLogs\<close> of \<^verbatim>\<open>services/logService.ts\<close> after the HTTP request, as a
    function of the response data;
  \<^item> the \<open>histogramData\<close> computation of the \<open>LogHistogram\<close> component.

  Conventions of the embedding.
  \<^item> A JavaScript \<open>number\<close> is an exact rational (\<^typ>\<open>rat\<close>): rounding of IEEE doubles is
    not modelled, so a quotient that a double rounds across an integer can give another
    bucket index in the program than here. The one place where the code leaves the finite
    numbers, a division by a bucket width of zero, is modelled with its JavaScript result
    (\<open>NaN\<close>, \<open>\<plusminus>Infinity\<close>).
  \<^item> The builtins \<open>Number(s)\<close> on strings and \<open>n.toString()\<close> on numbers are parameters
    (\<open>Number\<close>, \<open>toString\<close>) of the functions that call them. \<open>Number\<close> has values in
    \<^typ>\<open>rat\<close>: time strings are taken to denote finite numbers.
  \<^item> An optional, \<open>undefined\<close> or \<open>null\<close> field is an \<open>option\<close>; an exception is a value
    of the type \<open>error\<close>, returned as \<open>Inl\<close>.
  \<^item> A JavaScript object used as a dictionary is a map \<open>string \<rightharpoonup> AttributeValue\<close>, and
    \<open>obj[k] = v\<close> is the update of the map at \<open>k\<close>. The key \<open>__proto__\<close>, for which the
    program stores no own property, is not set apart.
  \<^item> \<open>Array.prototype.sort\<close> is stable; it is modelled by a stable insertion sort that
    only consults the comparator of the source.
\<close>

subsection \<open>Types of \<^verbatim>\<open>types/otlp.ts\<close>\<close>

text \<open>\<open>IAnyValue\<close>: the OTLP union, as optional fields. Only the four fields read by the
  code are listed; a value that populates another field (array, key-value list, bytes) has
  none of the four.\<close>

record IAnyValue =
  stringValue :: "string option"
  intValue :: "rat option"
  doubleValue :: "rat option"
  boolValue :: "bool option"

text \<open>\<open>ExtractedAnyValue = string | number | boolean | null\<close>, and \<open>AttributeValue\<close> is the
  same union.\<close>

datatype ExtractedAnyValue = VString string | VNumber rat | VBool bool | VNull

type_synonym AttributeValue = ExtractedAnyValue

type_synonym Attributes = "string \<rightharpoonup> AttributeValue"

record IKeyValue =
  key :: "string option"
  val :: "IAnyValue option"

record Resource =
  attributes :: "IKeyValue list option"

record IInstrumentationScope =
  name :: "string option"
  version :: "string option"
  attributes :: "IKeyValue list option"

text \<open>\<open>Fixed64\<close> as transported in JSON: a decimal string or a number.\<close>

datatype Fixed64 = FString string | FNumber rat

text \<open>A trace or span identifier: a string or a \<open>Uint8Array\<close>.\<close>

datatype Identifier = IdString string | IdBytes "8 word list"

record ILogRecord =
  timeUnixNano :: "Fixed64 option"
  severityNumber :: "int option"
  severityText :: "string option"
  body :: "IAnyValue option"
  attributes :: "IKeyValue list option"
  droppedAttributesCount :: "int option"
  traceId :: "Identifier option"
  spanId :: "Identifier option"
  flags :: "int option"

record IScopeLogs =
  scope :: "IInstrumentationScope option"
  logRecords :: "ILogRecord list option"

record IResourceLogs =
  resource :: "Resource option"
  scopeLogs :: "IScopeLogs list option"

record IExportLogsServiceRequest =
  resourceLogs :: "IResourceLogs list option"

text \<open>\<open>LogEntry\<close>. Its \<open>timeUnixNano\<close> is declared \<open>string | number\<close>; the consumers test it
  for falsiness, so \<open>undefined\<close> is a value of the model too. The three attribute objects
  are always set by \<open>fetchLogs\<close>.\<close>

datatype StringOrNumber = Str string | Num rat

record LogEntry =
  timeUnixNano :: "StringOrNumber option"
  severityNumber :: "int option"
  severityText :: "string option"
  body :: string
  attributes :: Attributes
  droppedAttributesCount :: "int option"
  traceId :: "string option"
  spanId :: "string option"
  flags :: "int option"
  resourceAttributes :: Attributes
  scopeAttributes :: Attributes

datatype error = TypeError

subsection \<open>\<open>extractAnyValue\<close>, \<open>extractStringValue\<close>\<close>

definition extractAnyValue :: "IAnyValue option \<Rightarrow> ExtractedAnyValue" where
  "extractAnyValue v =
     (case v of
        None \<Rightarrow> VNull
      | Some a \<Rightarrow>
          (case stringValue a of
             Some s \<Rightarrow> VString s
           | None \<Rightarrow>
               (case intValue a of
                  Some i \<Rightarrow> VNumber i
                | None \<Rightarrow>
                    (case doubleValue a of
                       Some d \<Rightarrow> VNumber d
                     | None \<Rightarrow>
                         (case boolValue a of
                            Some b \<Rightarrow> VBool b
                          | None \<Rightarrow> VNull)))))"

definition extractStringValue :: "IAnyValue option \<Rightarrow> string" where
  "extractStringValue v =
     (case v of
        None \<Rightarrow> ''''
      | Some a \<Rightarrow> (case stringValue a of None \<Rightarrow> '''' | Some s \<Rightarrow> s))"

text \<open>The extraction policy in the words of the specification: the candidates in the
  priority order string, int, double, bool; the first populated one is taken, else null.\<close>

definition variants :: "IAnyValue \<Rightarrow> ExtractedAnyValue option list" where
  "variants a =
     [map_option VString (stringValue a), map_option VNumber (intValue a),
      map_option VNumber (doubleValue a), map_option VBool (boolValue a)]"

fun first_populated :: "ExtractedAnyValue option list \<Rightarrow> ExtractedAnyValue" where
  "first_populated [] = VNull"
| "first_populated (None # cs) = first_populated cs"
| "first_populated (Some x # cs) = x"

subsection \<open>The body of \<open>fetchLogs\<close>\<close>

text \<open>Truthiness of a string (\<open>if (attr.key)\<close>, \<open>if (scope?.name)\<close>): present and not empty.\<close>

definition truthy_string :: "string option \<Rightarrow> bool" where
  "truthy_string s = (case s of None \<Rightarrow> False | Some t \<Rightarrow> t \<noteq> [])"

text \<open>One step of the three \<open>attributes.forEach(attr => { if (attr.key) obj[attr.key] =
  extractAnyValue(attr.value) })\<close> loops, and the loops themselves. An absent (or non-array)
  \<open>attributes\<close> leaves the object as it is.\<close>

definition setAttribute :: "Attributes \<Rightarrow> IKeyValue \<Rightarrow> Attributes" where
  "setAttribute obj attr =
     (if truthy_string (key attr) then obj(the (key attr) \<mapsto> extractAnyValue (val attr))
      else obj)"

definition forEach_attributes :: "IKeyValue list option \<Rightarrow> Attributes \<Rightarrow> Attributes" where
  "forEach_attributes attrs obj =
     (case attrs of None \<Rightarrow> obj | Some kvs \<Rightarrow> foldl setAttribute obj kvs)"

definition resourceAttributes_of :: "IResourceLogs \<Rightarrow> Attributes" where
  "resourceAttributes_of resourceLog =
     (case resource resourceLog of
        None \<Rightarrow> Map.empty
      | Some r \<Rightarrow> forEach_attributes (Resource.attributes r) Map.empty)"

definition scopeAttributes_of :: "IScopeLogs \<Rightarrow> Attributes" where
  "scopeAttributes_of scopeLog =
     (case scope scopeLog of
        None \<Rightarrow> Map.empty
      | Some sc \<Rightarrow>
          (let a0 = forEach_attributes (IInstrumentationScope.attributes sc) Map.empty;
               a1 = (if truthy_string (name sc) then a0(''scope.name'' \<mapsto> VString (the (name sc)))
                     else a0)
           in if truthy_string (version sc)
              then a1(''scope.version'' \<mapsto> VString (the (version sc)))
              else a1))"

text \<open>\<open>Buffer.from(bytes).toString('hex')\<close>: two lower-case digits for each byte.\<close>

definition hex_digit :: "nat \<Rightarrow> char" where
  "hex_digit n = (if n < 10 then char_of (48 + n) else char_of (87 + n))"

definition toHex :: "8 word list \<Rightarrow> string" where
  "toHex bs = concat (map (\<lambda>b. [hex_digit (unat b div 16), hex_digit (unat b mod 16)]) bs)"

definition convertId :: "Identifier option \<Rightarrow> string option" where
  "convertId i =
     (case i of
        None \<Rightarrow> None
      | Some (IdString s) \<Rightarrow> Some s
      | Some (IdBytes bs) \<Rightarrow> Some (toHex bs))"

text \<open>\<open>logRecord.timeUnixNano.toString()\<close>: a method call on \<open>undefined\<close> throws.\<close>

definition timeToString :: "(rat \<Rightarrow> string) \<Rightarrow> Fixed64 option \<Rightarrow> error + string" where
  "timeToString toString t =
     (case t of
        None \<Rightarrow> Inl TypeError
      | Some (FString s) \<Rightarrow> Inr s
      | Some (FNumber n) \<Rightarrow> Inr (toString n))"

text \<open>The construction of one \<open>logEntry\<close>, with the loop over the record's attributes.\<close>

definition toLogEntry ::
  "(rat \<Rightarrow> string) \<Rightarrow> Attributes \<Rightarrow> Attributes \<Rightarrow> ILogRecord \<Rightarrow> error + LogEntry" where
  "toLogEntry toString resourceAttrs scopeAttrs logRecord =
     (case timeToString toString (ILogRecord.timeUnixNano logRecord) of
        Inl e \<Rightarrow> Inl e
      | Inr t \<Rightarrow>
          Inr \<lparr> timeUnixNano = Some (Str t),
                severityNumber = ILogRecord.severityNumber logRecord,
                severityText = ILogRecord.severityText logRecord,
                body = extractStringValue (ILogRecord.body logRecord),
                attributes = forEach_attributes (ILogRecord.attributes logRecord) Map.empty,
                droppedAttributesCount = ILogRecord.droppedAttributesCount logRecord,
                traceId = convertId (ILogRecord.traceId logRecord),
                spanId = convertId (ILogRecord.spanId logRecord),
                flags = ILogRecord.flags logRecord,
                resourceAttributes = resourceAttrs,
                scopeAttributes = scopeAttrs \<rparr>)"

text \<open>The three nested \<open>forEach\<close> loops. The array \<open>logRecords\<close> that the source pushes to
  is passed along; an exception ends all loops.\<close>

fun forEach_logRecords ::
  "(rat \<Rightarrow> string) \<Rightarrow> Attributes \<Rightarrow> Attributes \<Rightarrow> ILogRecord list \<Rightarrow> LogEntry list
     \<Rightarrow> error + LogEntry list" where
  "forEach_logRecords toString ra sa [] acc = Inr acc"
| "forEach_logRecords toString ra sa (logRecord # rest) acc =
     (case toLogEntry toString ra sa logRecord of
        Inl e \<Rightarrow> Inl e
      | Inr logEntry \<Rightarrow> forEach_logRecords toString ra sa rest (acc @ [logEntry]))"

definition process_scopeLog ::
  "(rat \<Rightarrow> string) \<Rightarrow> Attributes \<Rightarrow> IScopeLogs \<Rightarrow> LogEntry list \<Rightarrow> error + LogEntry list" where
  "process_scopeLog toString ra scopeLog acc =
     (case logRecords scopeLog of
        None \<Rightarrow> Inr acc
      | Some rs \<Rightarrow> forEach_logRecords toString ra (scopeAttributes_of scopeLog) rs acc)"

fun forEach_scopeLogs ::
  "(rat \<Rightarrow> string) \<Rightarrow> Attributes \<Rightarrow> IScopeLogs list \<Rightarrow> LogEntry list
     \<Rightarrow> error + LogEntry list" where
  "forEach_scopeLogs toString ra [] acc = Inr acc"
| "forEach_scopeLogs toString ra (scopeLog # rest) acc =
     (case process_scopeLog toString ra scopeLog acc of
        Inl e \<Rightarrow> Inl e
      | Inr acc' \<Rightarrow> forEach_scopeLogs toString ra rest acc')"

definition process_resourceLog ::
  "(rat \<Rightarrow> string) \<Rightarrow> IResourceLogs \<Rightarrow> LogEntry list \<Rightarrow> error + LogEntry list" where
  "process_resourceLog toString resourceLog acc =
     (case scopeLogs resourceLog of
        None \<Rightarrow> Inr acc
      | Some sls \<Rightarrow> forEach_scopeLogs toString (resourceAttributes_of resourceLog) sls acc)"

fun forEach_resourceLogs ::
  "(rat \<Rightarrow> string) \<Rightarrow> IResourceLogs list \<Rightarrow> LogEntry list \<Rightarrow> error + LogEntry list" where
  "forEach_resourceLogs toString [] acc = Inr acc"
| "forEach_resourceLogs toString (resourceLog # rest) acc =
     (case process_resourceLog toString resourceLog acc of
        Inl e \<Rightarrow> Inl e
      | Inr acc' \<Rightarrow> forEach_resourceLogs toString rest acc')"

text \<open>The entries in iteration order, before the sort.\<close>

definition collect :: "(rat \<Rightarrow> string) \<Rightarrow> IExportLogsServiceRequest \<Rightarrow> error + LogEntry list" where
  "collect toString data =
     (case resourceLogs data of
        None \<Rightarrow> Inr []
      | Some rls \<Rightarrow> forEach_resourceLogs toString rls [])"

subsection \<open>Sorting\<close>

text \<open>\<open>xs.sort(cmp)\<close>: a stable sort. \<open>x\<close> goes before the first \<open>y\<close> with \<open>cmp(x, y) \<le> 0\<close>.\<close>

fun insert_by :: "('a \<Rightarrow> 'a \<Rightarrow> rat) \<Rightarrow> 'a \<Rightarrow> 'a list \<Rightarrow> 'a list" where
  "insert_by cmp x [] = [x]"
| "insert_by cmp x (y # ys) = (if cmp x y \<le> 0 then x # y # ys else y # insert_by cmp x ys)"

definition Array_sort :: "('a \<Rightarrow> 'a \<Rightarrow> rat) \<Rightarrow> 'a list \<Rightarrow> 'a list" where
  "Array_sort cmp xs = foldr (insert_by cmp) xs []"

text \<open>Truthiness of \<open>timeUnixNano\<close>, the conversion \<open>Number(timeUnixNano)\<close>, and the
  expression \<open>a.timeUnixNano ? Number(a.timeUnixNano) : 0\<close> of both comparators.\<close>

definition truthy_time :: "StringOrNumber option \<Rightarrow> bool" where
  "truthy_time t =
     (case t of None \<Rightarrow> False | Some (Str s) \<Rightarrow> s \<noteq> [] | Some (Num n) \<Rightarrow> n \<noteq> 0)"

definition toNumber :: "(string \<Rightarrow> rat) \<Rightarrow> StringOrNumber \<Rightarrow> rat" where
  "toNumber Number t = (case t of Str s \<Rightarrow> Number s | Num n \<Rightarrow> n)"

definition timeOf :: "(string \<Rightarrow> rat) \<Rightarrow> LogEntry \<Rightarrow> rat" where
  "timeOf Number a =
     (if truthy_time (LogEntry.timeUnixNano a) then toNumber Number (the (LogEntry.timeUnixNano a))
      else 0)"

text \<open>The comparator of \<open>fetchLogs\<close> (newest first) and \<open>fetchLogs\<close> itself, as a function of
  the response data.\<close>

definition newest_first :: "(string \<Rightarrow> rat) \<Rightarrow> LogEntry \<Rightarrow> LogEntry \<Rightarrow> rat" where
  "newest_first Number a b = timeOf Number b - timeOf Number a"

definition fetchLogs ::
  "(rat \<Rightarrow> string) \<Rightarrow> (string \<Rightarrow> rat) \<Rightarrow> IExportLogsServiceRequest \<Rightarrow> error + LogEntry list" where
  "fetchLogs toString Number data =
     (case collect toString data of
        Inl e \<Rightarrow> Inl e
      | Inr entries \<Rightarrow> Inr (Array_sort (newest_first Number) entries))"

subsection \<open>The histogram\<close>

text \<open>The results of the division and of \<open>Math.floor\<close> and \<open>Math.min\<close> on it. The divisor
  is a bucket width, which is never negative.\<close>

datatype jsnum = Finite rat | PosInfinity | NegInfinity | NaN

definition divide_js :: "rat \<Rightarrow> rat \<Rightarrow> jsnum" where
  "divide_js a b =
     (if b \<noteq> 0 then Finite (a / b)
      else if a = 0 then NaN
      else if 0 < a then PosInfinity
      else NegInfinity)"

definition Math_floor :: "jsnum \<Rightarrow> jsnum" where
  "Math_floor x = (case x of Finite r \<Rightarrow> Finite (of_int \<lfloor>r\<rfloor>) | _ \<Rightarrow> x)"

definition Math_min :: "jsnum \<Rightarrow> rat \<Rightarrow> jsnum" where
  "Math_min x b =
     (case x of
        Finite r \<Rightarrow> Finite (min r b)
      | PosInfinity \<Rightarrow> Finite b
      | NegInfinity \<Rightarrow> NegInfinity
      | NaN \<Rightarrow> NaN)"

record Bucket =
  time :: rat
  count :: nat

record HistogramBucket =
  time :: string
  count :: nat

text \<open>The comparator of the histogram (oldest first).\<close>

definition oldest_first :: "(string \<Rightarrow> rat) \<Rightarrow> LogEntry \<Rightarrow> LogEntry \<Rightarrow> rat" where
  "oldest_first Number a b = timeOf Number a - timeOf Number b"

definition bucketIndex_of :: "rat \<Rightarrow> rat \<Rightarrow> int \<Rightarrow> rat \<Rightarrow> jsnum" where
  "bucketIndex_of minTime bucketSizeNanos numBuckets t =
     Math_min (Math_floor (divide_js (t - minTime) bucketSizeNanos)) (of_int (numBuckets - 1))"

text \<open>The body of \<open>logs.forEach(log => ...)\<close>: the buckets after one log.\<close>

definition countLog ::
  "(string \<Rightarrow> rat) \<Rightarrow> rat \<Rightarrow> rat \<Rightarrow> int \<Rightarrow> Bucket list \<Rightarrow> LogEntry \<Rightarrow> Bucket list" where
  "countLog Number minTime bucketSizeNanos numBuckets buckets logEntry =
     (if \<not> truthy_time (LogEntry.timeUnixNano logEntry) then buckets
      else
        (case bucketIndex_of minTime bucketSizeNanos numBuckets
                (toNumber Number (the (LogEntry.timeUnixNano logEntry))) of
           Finite i \<Rightarrow>
             (if 0 \<le> i \<and> i < of_nat (length buckets)
              then buckets[nat \<lfloor>i\<rfloor> :=
                     (buckets ! nat \<lfloor>i\<rfloor>)\<lparr>Bucket.count := Bucket.count (buckets ! nat \<lfloor>i\<rfloor>) + 1\<rparr>]
              else buckets)
         | _ \<Rightarrow> buckets))"

text \<open>\<open>histogramData\<close>. \<open>formatTimestamp\<close> (a time of day in the local time zone, by the
  library \<open>date-fns\<close>) is a parameter.\<close>

definition numBuckets_of :: "rat \<Rightarrow> int" where
  "numBuckets_of timeRangeSeconds = min (max 10 \<lceil>timeRangeSeconds / 5\<rceil>) 20"

definition histogramData ::
  "(rat \<Rightarrow> string) \<Rightarrow> (string \<Rightarrow> rat) \<Rightarrow> LogEntry list \<Rightarrow> HistogramBucket list" where
  "histogramData formatTimestamp Number logs =
     (if logs = [] then []
      else
        (let sortedLogs = Array_sort (oldest_first Number) logs;
             minTime = timeOf Number (sortedLogs ! 0);
             maxTime = timeOf Number (sortedLogs ! (length sortedLogs - 1))
         in if minTime = 0 \<or> maxTime = 0 then []
            else
              (let timeRangeNanos = maxTime - minTime;
                   timeRangeSeconds = timeRangeNanos / 1000000000;
                   numBuckets = numBuckets_of timeRangeSeconds;
                   bucketSizeNanos = timeRangeNanos / of_int numBuckets;
                   buckets = map (\<lambda>i. \<lparr>Bucket.time = minTime + of_nat i * bucketSizeNanos,
                                        Bucket.count = 0\<rparr>) [0..<nat numBuckets];
                   counted = foldl (countLog Number minTime bucketSizeNanos numBuckets) buckets logs
               in map (\<lambda>bucket. \<lparr>HistogramBucket.time = formatTimestamp (Bucket.time bucket),
                                     HistogramBucket.count = Bucket.count bucket\<rparr>) counted)))"

subsection \<open>Vocabulary of the properties\<close>

text \<open>Every \<open>LogRecord\<close> of a payload with the \<open>ResourceLogs\<close> and \<open>ScopeLogs\<close> that own it,
  in source order, and the number of \<open>LogRecord\<close>s summed over all of them.\<close>

definition the_list :: "'a list option \<Rightarrow> 'a list" where
  "the_list xs = (case xs of None \<Rightarrow> [] | Some ys \<Rightarrow> ys)"

definition owners :: "IExportLogsServiceRequest \<Rightarrow> (IResourceLogs \<times> IScopeLogs \<times> ILogRecord) list" where
  "owners data =
     concat (map (\<lambda>rl.
       concat (map (\<lambda>sl. map (\<lambda>r. (rl, sl, r)) (the_list (logRecords sl)))
                   (the_list (scopeLogs rl))))
       (the_list (resourceLogs data)))"

definition count_LogRecords :: "IExportLogsServiceRequest \<Rightarrow> nat" where
  "count_LogRecords data =
     sum_list (map (\<lambda>rl. sum_list (map (\<lambda>sl. length (the_list (logRecords sl)))
                                       (the_list (scopeLogs rl))))
                   (the_list (resourceLogs data)))"

text \<open>The entry that \<open>fetchLogs\<close> builds for a record under its owners, where it builds
  one.\<close>

definition has_time :: "ILogRecord \<Rightarrow> bool" where
  "has_time r = (ILogRecord.timeUnixNano r \<noteq> None)"

definition entry_of :: "(rat \<Rightarrow> string) \<Rightarrow> IResourceLogs \<times> IScopeLogs \<times> ILogRecord \<Rightarrow> LogEntry" where
  "entry_of toString owner =
     (case owner of (rl, sl, r) \<Rightarrow>
        projr (toLogEntry toString (resourceAttributes_of rl) (scopeAttributes_of sl) r))"

text \<open>Every record of the payload carries a \<open>timeUnixNano\<close>.\<close>

definition every_record_has_time :: "IExportLogsServiceRequest \<Rightarrow> bool" where
  "every_record_has_time data = list_all (\<lambda>w. has_time (snd (snd w))) (owners data)"

text \<open>The scope attribute object of a scope without attributes array: the synthetic keys
  only.\<close>

definition synthetic_only :: "IInstrumentationScope \<Rightarrow> Attributes" where
  "synthetic_only sc =
     (\<lambda>k. if k = ''scope.version'' \<and> truthy_string (version sc) then Some (VString (the (version sc)))
          else if k = ''scope.name'' \<and> truthy_string (name sc) then Some (VString (the (name sc)))
          else None)"

text \<open>The payload without the attribute pairs whose key is absent or empty, at the three
  levels.\<close>

definition keyed :: "IKeyValue list option \<Rightarrow> IKeyValue list option" where
  "keyed attrs = map_option (filter (\<lambda>attr. truthy_string (key attr))) attrs"

definition keyed_record :: "ILogRecord \<Rightarrow> ILogRecord" where
  "keyed_record r = r\<lparr> ILogRecord.attributes := keyed (ILogRecord.attributes r) \<rparr>"

definition keyed_scope :: "IInstrumentationScope \<Rightarrow> IInstrumentationScope" where
  "keyed_scope sc =
     sc\<lparr> IInstrumentationScope.attributes := keyed (IInstrumentationScope.attributes sc) \<rparr>"

definition keyed_resource :: "Resource \<Rightarrow> Resource" where
  "keyed_resource res = res\<lparr> Resource.attributes := keyed (Resource.attributes res) \<rparr>"

definition keyed_scopeLog :: "IScopeLogs \<Rightarrow> IScopeLogs" where
  "keyed_scopeLog sl =
     sl\<lparr> scope := map_option keyed_scope (scope sl),
         logRecords := map_option (map keyed_record) (logRecords sl) \<rparr>"

definition keyed_resourceLog :: "IResourceLogs \<Rightarrow> IResourceLogs" where
  "keyed_resourceLog rl =
     rl\<lparr> resource := map_option keyed_resource (resource rl),
         scopeLogs := map_option (map keyed_scopeLog) (scopeLogs rl) \<rparr>"

definition keyed_payload :: "IExportLogsServiceRequest \<Rightarrow> IExportLogsServiceRequest" where
  "keyed_payload data =
     data\<lparr> resourceLogs := map_option (map keyed_resourceLog) (resourceLogs data) \<rparr>"

definition keyed_owner ::
  "IResourceLogs \<times> IScopeLogs \<times> ILogRecord \<Rightarrow> IResourceLogs \<times> IScopeLogs \<times> ILogRecord" where
  "keyed_owner w = (keyed_resourceLog (fst w), keyed_scopeLog (fst (snd w)), keyed_record (snd (snd w)))"

text \<open>The smallest and the largest time of a sequence of entries, and the entries with a
  defined, non-zero time.\<close>

definition minTime_of :: "(string \<Rightarrow> rat) \<Rightarrow> LogEntry list \<Rightarrow> rat" where
  "minTime_of Number logs = Min (timeOf Number ` set logs)"

definition maxTime_of :: "(string \<Rightarrow> rat) \<Rightarrow> LogEntry list \<Rightarrow> rat" where
  "maxTime_of Number logs = Max (timeOf Number ` set logs)"

definition nonzero_time :: "(string \<Rightarrow> rat) \<Rightarrow> LogEntry \<Rightarrow> bool" where
  "nonzero_time Number e = (timeOf Number e \<noteq> 0)"

definition has_truthy_time :: "LogEntry \<Rightarrow> bool" where
  "has_truthy_time e = truthy_time (LogEntry.timeUnixNano e)"

text \<open>The bucket in which \<open>countLog\<close> counts an entry, among \<open>n\<close> buckets; \<open>None\<close> when the
  entry is not counted.\<close>

definition counted_in ::
  "(string \<Rightarrow> rat) \<Rightarrow> rat \<Rightarrow> rat \<Rightarrow> int \<Rightarrow> nat \<Rightarrow> LogEntry \<Rightarrow> nat option" where
  "counted_in Number minTime bucketSizeNanos numBuckets n e =
     (if \<not> truthy_time (LogEntry.timeUnixNano e) then None
      else
        (case bucketIndex_of minTime bucketSizeNanos numBuckets
                (toNumber Number (the (LogEntry.timeUnixNano e))) of
           Finite i \<Rightarrow> (if 0 \<le> i \<and> i < of_nat n then Some (nat \<lfloor>i\<rfloor>) else None)
         | _ \<Rightarrow> None))"

text \<open>\<open>clamp(x, lower, upper)\<close> of the specification.\<close>

definition clamp :: "int \<Rightarrow> int \<Rightarrow> int \<Rightarrow> int" where
  "clamp x lower upper = (if x < lower then lower else if upper < x then upper else x)"

text \<open>Instances of the two builtin parameters on decimal integers, for concrete inputs:
  \<open>Number\<close> on a string of decimal digits, and \<open>toString\<close> on an integral number below
  \<open>10\<^sup>2\<^sup>1\<close> in absolute value. \<open>Number_decimal\<close> is the exact value of the digits; the
  builtin rounds it to the nearest double, which is the same number for the times of the
  concrete inputs below.\<close>

definition Number_decimal :: "string \<Rightarrow> rat" where
  "Number_decimal s = foldl (\<lambda>n c. 10 * n + of_nat (of_char c - 48)) 0 s"

definition digits_decimal :: "nat \<Rightarrow> string" where
  "digits_decimal n =
     (let ds = dropWhile (\<lambda>c. c = CHR ''0'')
                 (map (\<lambda>k. char_of (48 + (n div 10 ^ k) mod 10)) (rev [0..<21]))
      in if ds = [] then ''0'' else ds)"

definition toString_decimal :: "rat \<Rightarrow> string" where
  "toString_decimal r =
     (if r < 0 then CHR ''-'' # digits_decimal (nat (- \<lfloor>r\<rfloor>)) else digits_decimal (nat \<lfloor>r\<rfloor>))"

text \<open>An instance of \<open>formatTimestamp\<close>: the time of day in the time zone UTC.\<close>

definition two_digits :: "nat \<Rightarrow> string" where
  "two_digits n = [char_of (48 + n div 10 mod 10), char_of (48 + n mod 10)]"

definition formatTimestamp_UTC :: "rat \<Rightarrow> string" where
  "formatTimestamp_UTC nanosTimestamp =
     (let s = nat (\<lfloor>nanosTimestamp / 1000000000\<rfloor> mod 86400)
      in two_digits (s div 3600) @ '':'' @ two_digits (s div 60 mod 60) @ '':'' @ two_digits (s mod 60))"

subsection \<open>Concrete inputs\<close>

definition string_value :: "string \<Rightarrow> IAnyValue" where
  "string_value s = \<lparr> stringValue = Some s, intValue = None, doubleValue = None, boolValue = None \<rparr>"

definition int_value :: "rat \<Rightarrow> IAnyValue" where
  "int_value i = \<lparr> stringValue = None, intValue = Some i, doubleValue = None, boolValue = None \<rparr>"

text \<open>A log record with the given time, body and attributes, and nothing else.\<close>

definition log_record :: "Fixed64 option \<Rightarrow> string \<Rightarrow> IKeyValue list option \<Rightarrow> ILogRecord" where
  "log_record t b as =
     \<lparr> ILogRecord.timeUnixNano = t, ILogRecord.severityNumber = None,
       ILogRecord.severityText = None, ILogRecord.body = Some (string_value b),
       ILogRecord.attributes = as, ILogRecord.droppedAttributesCount = None,
       ILogRecord.traceId = None, ILogRecord.spanId = None, ILogRecord.flags = None \<rparr>"

text \<open>A payload whose only record has no \<open>timeUnixNano\<close>:
  \<^verbatim>\<open>{"resourceLogs":[{"scopeLogs":[{"logRecords":[{"body":{"stringValue":"hello"}}]}]}]}\<close>\<close>

definition payload_without_time :: IExportLogsServiceRequest where
  "payload_without_time =
     \<lparr> resourceLogs = Some [\<lparr> resource = None,
         scopeLogs = Some [\<lparr> scope = None,
                             logRecords = Some [log_record None ''hello'' None] \<rparr>] \<rparr>] \<rparr>"

text \<open>A payload with a record that has a time before a record that has none.\<close>

definition payload_mixed_time :: IExportLogsServiceRequest where
  "payload_mixed_time =
     \<lparr> resourceLogs = Some [\<lparr> resource = None,
         scopeLogs = Some [\<lparr> scope = None,
           logRecords = Some [log_record (Some (FString ''2000000000'')) ''world'' None,
                              log_record None ''hello'' None] \<rparr>] \<rparr>] \<rparr>"

text \<open>Scenario A of the specification: one \<open>ResourceLogs\<close> without resource, one \<open>ScopeLogs\<close>
  whose scope has the name \<open>svc\<close>, the version \<open>1.0\<close> and no attributes array, and two
  records.\<close>

definition scope_A :: IInstrumentationScope where
  "scope_A = \<lparr> name = Some ''svc'', version = Some ''1.0'',
               IInstrumentationScope.attributes = None \<rparr>"

definition payload_A :: IExportLogsServiceRequest where
  "payload_A =
     \<lparr> resourceLogs = Some [\<lparr> resource = None,
         scopeLogs = Some [\<lparr> scope = Some scope_A,
           logRecords = Some [log_record (Some (FString ''1000000000'')) ''hello'' None,
                              log_record (Some (FString ''2000000000'')) ''world'' None] \<rparr>] \<rparr>] \<rparr>"

definition entry_A :: "string \<Rightarrow> string \<Rightarrow> LogEntry" where
  "entry_A t b =
     \<lparr> LogEntry.timeUnixNano = Some (Str t), LogEntry.severityNumber = None,
       LogEntry.severityText = None, LogEntry.body = b, LogEntry.attributes = Map.empty,
       LogEntry.droppedAttributesCount = None, LogEntry.traceId = None,
       LogEntry.spanId = None, LogEntry.flags = None,
       LogEntry.resourceAttributes = Map.empty,
       LogEntry.scopeAttributes =
         [''scope.name'' \<mapsto> VString ''svc'', ''scope.version'' \<mapsto> VString ''1.0''] \<rparr>"

text \<open>A payload with attributes at the three levels: pairs without key and with the empty
  key, and a scope attribute named \<open>scope.name\<close>.\<close>

definition resource_B :: Resource where
  "resource_B =
     \<lparr> Resource.attributes = Some
         [\<lparr> key = Some ''service.name'', val = Some (string_value ''api'') \<rparr>,
          \<lparr> key = None, val = Some (string_value ''x'') \<rparr>,
          \<lparr> key = Some '''', val = Some (string_value ''y'') \<rparr>] \<rparr>"

definition scope_B :: IInstrumentationScope where
  "scope_B =
     \<lparr> name = Some ''svc'', version = Some ''1.0'',
       IInstrumentationScope.attributes = Some
         [\<lparr> key = Some ''scope.name'', val = Some (string_value ''other'') \<rparr>,
          \<lparr> key = Some '''', val = None \<rparr>] \<rparr>"

definition payload_B :: IExportLogsServiceRequest where
  "payload_B =
     \<lparr> resourceLogs = Some [\<lparr> resource = Some resource_B,
         scopeLogs = Some [\<lparr> scope = Some scope_B,
           logRecords = Some
             [log_record (Some (FString ''1000000000'')) ''hello''
                (Some [\<lparr> key = Some ''k'', val = Some (int_value 1) \<rparr>,
                       \<lparr> key = Some '''', val = Some (int_value 2) \<rparr>]),
              log_record (Some (FString ''2000000000'')) ''world'' None] \<rparr>] \<rparr>] \<rparr>"

text \<open>An entry with the given \<open>timeUnixNano\<close> and nothing else, and inputs of the histogram:
  three entries of one time; an entry without time, or of the time 0, before an entry with
  a time; two entries sixty seconds apart.\<close>

definition entry_at :: "StringOrNumber option \<Rightarrow> LogEntry" where
  "entry_at t =
     \<lparr> LogEntry.timeUnixNano = t, LogEntry.severityNumber = None,
       LogEntry.severityText = None, LogEntry.body = [], LogEntry.attributes = Map.empty,
       LogEntry.droppedAttributesCount = None, LogEntry.traceId = None,
       LogEntry.spanId = None, LogEntry.flags = None,
       LogEntry.resourceAttributes = Map.empty, LogEntry.scopeAttributes = Map.empty \<rparr>"

definition logs_one_time :: "LogEntry list" where
  "logs_one_time =
     [entry_at (Some (Str ''1700000000000000000'')), entry_at (Some (Str ''1700000000000000000'')),
      entry_at (Some (Str ''1700000000000000000''))]"

definition logs_absent_time :: "LogEntry list" where
  "logs_absent_time = [entry_at None, entry_at (Some (Str ''1700000000000000000''))]"

definition logs_zero_time :: "LogEntry list" where
  "logs_zero_time = [entry_at (Some (Str ''0'')), entry_at (Some (Str ''1700000000000000000''))]"

definition logs_minute :: "LogEntry list" where
  "logs_minute =
     [entry_at (Some (Str ''1700000060000000000'')), entry_at (Some (Str ''1700000000000000000''))]"

text \<open>Scenario D of the specification: a hundred entries \<open>step\<close> nanoseconds apart, the
  first at \<open>start\<close>.\<close>

definition logs_spread :: "rat \<Rightarrow> rat \<Rightarrow> LogEntry list" where
  "logs_spread start step = map (\<lambda>i. entry_at (Some (Num (start + of_nat i * step)))) [0..<100]"

section \<open>Properties\<close>

subsection \<open>The loops of \<open>fetchLogs\<close> in closed form\<close>

lemma the_list_simps: "the_list None = []" "the_list (Some xs) = xs"
  by (simp_all add: the_list_def)

lemma toLogEntry_cases:
  "toLogEntry ts ra sa r = (if has_time r then Inr (projr (toLogEntry ts ra sa r)) else Inl TypeError)"
  by (auto simp: toLogEntry_def timeToString_def has_time_def split: option.splits Fixed64.splits)

lemma forEach_logRecords_eq:
  "forEach_logRecords ts ra sa rs acc =
     (if \<forall>r\<in>set rs. has_time r
      then Inr (acc @ map (\<lambda>r. projr (toLogEntry ts ra sa r)) rs)
      else Inl TypeError)"
proof (induction rs arbitrary: acc)
  case Nil
  show ?case by simp
next
  case (Cons r rs)
  show ?case
  proof (cases "has_time r")
    case True
    then obtain e where e: "toLogEntry ts ra sa r = Inr e"
      using toLogEntry_cases [of ts ra sa r] by simp
    show ?thesis using True by (simp add: e Cons.IH)
  next
    case False
    then have "toLogEntry ts ra sa r = Inl TypeError"
      using toLogEntry_cases [of ts ra sa r] by simp
    then show ?thesis using False by simp
  qed
qed

lemma process_scopeLog_eq:
  "process_scopeLog ts (resourceAttributes_of rl) sl acc =
     (if \<forall>w\<in>set (map (\<lambda>r. (rl, sl, r)) (the_list (logRecords sl))). has_time (snd (snd w))
      then Inr (acc @ map (entry_of ts) (map (\<lambda>r. (rl, sl, r)) (the_list (logRecords sl))))
      else Inl TypeError)"
  by (cases "logRecords sl")
     (simp_all add: process_scopeLog_def forEach_logRecords_eq the_list_simps entry_of_def o_def)

lemma forEach_scopeLogs_eq:
  "forEach_scopeLogs ts (resourceAttributes_of rl) sls acc =
     (let os = concat (map (\<lambda>sl. map (\<lambda>r. (rl, sl, r)) (the_list (logRecords sl))) sls)
      in if \<forall>w\<in>set os. has_time (snd (snd w))
         then Inr (acc @ map (entry_of ts) os)
         else Inl TypeError)"
proof (induction sls arbitrary: acc)
  case Nil
  show ?case by simp
next
  case (Cons sl sls)
  show ?case
    unfolding forEach_scopeLogs.simps process_scopeLog_eq
    by (simp add: Cons.IH Let_def ball_Un)
qed

lemma process_resourceLog_eq:
  "process_resourceLog ts rl acc =
     (let os = concat (map (\<lambda>sl. map (\<lambda>r. (rl, sl, r)) (the_list (logRecords sl)))
                 (the_list (scopeLogs rl)))
      in if \<forall>w\<in>set os. has_time (snd (snd w))
         then Inr (acc @ map (entry_of ts) os)
         else Inl TypeError)"
  by (cases "scopeLogs rl") (simp_all add: process_resourceLog_def forEach_scopeLogs_eq the_list_simps)

lemma forEach_resourceLogs_eq:
  "forEach_resourceLogs ts rls acc =
     (let os = concat (map (\<lambda>rl. concat (map (\<lambda>sl. map (\<lambda>r. (rl, sl, r)) (the_list (logRecords sl)))
                 (the_list (scopeLogs rl)))) rls)
      in if \<forall>w\<in>set os. has_time (snd (snd w))
         then Inr (acc @ map (entry_of ts) os)
         else Inl TypeError)"
proof (induction rls arbitrary: acc)
  case Nil
  show ?case by simp
next
  case (Cons rl rls)
  show ?case
    unfolding forEach_resourceLogs.simps process_resourceLog_eq
    by (simp add: Cons.IH Let_def ball_Un)
qed

lemma collect_eq:
  "collect ts data =
     (if \<forall>w\<in>set (owners data). has_time (snd (snd w))
      then Inr (map (entry_of ts) (owners data))
      else Inl TypeError)"
  by (cases "resourceLogs data")
     (simp_all add: collect_def owners_def forEach_resourceLogs_eq the_list_simps Let_def)

subsection \<open>The sort is the stable sort by key\<close>

lemma insert_by_insort:
  "insert_by (\<lambda>a b. k a - k b) x ys = insort_key k x ys"
  by (induction ys) auto

lemma Array_sort_sort_key:
  "Array_sort (\<lambda>a b. k a - k b) xs = sort_key k xs"
  by (simp add: Array_sort_def sort_key_def insert_by_insort [abs_def])

lemma Array_sort_oldest_first:
  "Array_sort (oldest_first N) xs = sort_key (timeOf N) xs"
  using Array_sort_sort_key [of "timeOf N" xs] by (simp add: oldest_first_def [abs_def])

lemma Array_sort_newest_first:
  "Array_sort (newest_first N) xs = sort_key (\<lambda>a. - timeOf N a) xs"
  using Array_sort_sort_key [of "\<lambda>a. - timeOf N a" xs] by (simp add: newest_first_def [abs_def])

lemma length_owners: "length (owners data) = count_LogRecords data"
  by (simp add: owners_def count_LogRecords_def length_concat o_def)

subsection \<open>Extraction of a typed value\<close>

text \<open>
  Claim C8. For every \<open>AnyValue\<close>, \<open>extractAnyValue\<close> yields the first populated variant in
  the priority order string, int, double, bool, and null when no variant is populated or
  when the value itself is absent. A value with only \<open>boolValue: true\<close> extracts to \<open>true\<close>;
  a value with no field populated extracts to null.
\<close>

theorem extractAnyValue_priority:
  "extractAnyValue None = VNull
   \<and> extractAnyValue (Some a) = first_populated (variants a)
   \<and> extractAnyValue (Some \<lparr>stringValue = None, intValue = None, doubleValue = None,
                              boolValue = Some True\<rparr>) = VBool True
   \<and> extractAnyValue (Some \<lparr>stringValue = None, intValue = None, doubleValue = None,
                              boolValue = None\<rparr>) = VNull"
  by (simp add: extractAnyValue_def variants_def split: option.splits)

subsection \<open>Records without a time\<close>

text \<open>
  Claim C2. The claim is that \<open>fetchLogs\<close> returns a sequence for every payload, also when
  a \<open>LogRecord\<close> has no \<open>timeUnixNano\<close>. On the payload \<open>payload_without_time\<close> the code
  evaluates \<open>logRecord.timeUnixNano.toString()\<close> on \<open>undefined\<close> and throws a \<open>TypeError\<close>,
  which the \<open>catch\<close> block throws again: no sequence is returned.
\<close>

theorem fetchLogs_raises_without_time:
  "fetchLogs toString Number payload_without_time = Inl TypeError"
  by (simp add: fetchLogs_def collect_def process_resourceLog_def process_scopeLog_def
      toLogEntry_def timeToString_def payload_without_time_def log_record_def)

text \<open>Scenario B of the specification: without \<open>resourceLogs\<close> the result is empty.\<close>

lemma fetchLogs_empty_payload:
  "fetchLogs toString Number \<lparr> resourceLogs = None \<rparr> = Inr []"
  by (simp add: fetchLogs_def collect_def Array_sort_def)

subsection \<open>\<open>fetchLogs\<close> in closed form\<close>

lemma fetchLogs_eq:
  "fetchLogs ts N data =
     (if every_record_has_time data
      then Inr (sort_key (\<lambda>a. - timeOf N a) (map (entry_of ts) (owners data)))
      else Inl TypeError)"
  by (simp add: fetchLogs_def collect_eq Array_sort_newest_first every_record_has_time_def
      list_all_iff)

lemma forEach_attributes_None: "forEach_attributes None obj = obj"
  by (simp add: forEach_attributes_def)

lemma entry_of_fields:
  assumes "has_time r"
  shows "LogEntry.resourceAttributes (entry_of ts (rl, sl, r)) = resourceAttributes_of rl"
    and "LogEntry.scopeAttributes (entry_of ts (rl, sl, r)) = scopeAttributes_of sl"
    and "LogEntry.attributes (entry_of ts (rl, sl, r)) =
           forEach_attributes (ILogRecord.attributes r) Map.empty"
  using assms
  by (auto simp: entry_of_def toLogEntry_def timeToString_def has_time_def
      split: option.splits Fixed64.splits)

lemma scopeAttributes_of_no_attributes:
  "scope sl = Some sc \<Longrightarrow> IInstrumentationScope.attributes sc = None \<Longrightarrow>
   scopeAttributes_of sl = synthetic_only sc"
  by (auto simp: scopeAttributes_of_def synthetic_only_def forEach_attributes_None Let_def)

subsection \<open>Runs on the concrete payloads\<close>

lemma fetchLogs_payload_A:
  "fetchLogs toString_decimal Number_decimal payload_A =
     Inr [entry_A ''2000000000'' ''world'', entry_A ''1000000000'' ''hello'']"
  by (simp add: fetchLogs_def collect_def process_resourceLog_def process_scopeLog_def
      toLogEntry_def timeToString_def payload_A_def log_record_def entry_A_def
      resourceAttributes_of_def scopeAttributes_of_def scope_A_def truthy_string_def
      forEach_attributes_def extractStringValue_def string_value_def convertId_def
      Array_sort_def newest_first_def timeOf_def truthy_time_def toNumber_def Number_decimal_def)

lemma every_record_has_time_A: "every_record_has_time payload_A"
  by (simp add: every_record_has_time_def owners_def payload_A_def the_list_simps has_time_def
      log_record_def)

lemma every_record_has_time_B: "every_record_has_time payload_B"
  by (simp add: every_record_has_time_def owners_def payload_B_def the_list_simps has_time_def
      log_record_def)

subsection \<open>Count preservation\<close>

text \<open>
  Claim C1, amended. For every payload in which each \<open>LogRecord\<close> carries a
  \<open>timeUnixNano\<close>, \<open>fetchLogs\<close> returns a sequence whose length is the number of \<open>LogRecord\<close>s
  summed over all \<open>ResourceLogs\<close> and \<open>ScopeLogs\<close>; the sequence is a permutation of the
  entries built for the records in source order, so no record is dropped or duplicated.
  For each produced entry: when the resource or its attributes array is absent,
  \<open>resourceAttributes\<close> is empty; when the scope is absent, \<open>scopeAttributes\<close> is empty; when
  only the attributes array of the scope is absent, \<open>scopeAttributes\<close> holds exactly the
  synthetic keys \<open>scope.name\<close> and \<open>scope.version\<close> that the scope provides; when the
  attributes array of the record is absent, \<open>attributes\<close> is empty.
\<close>

theorem fetchLogs_count:
  assumes "every_record_has_time data"
  shows "\<exists>es. fetchLogs toString Number data = Inr es
           \<and> length es = count_LogRecords data
           \<and> mset es = mset (map (entry_of toString) (owners data))
           \<and> (\<forall>(rl, sl, r) \<in> set (owners data).
                 (resource rl = None \<longrightarrow>
                    LogEntry.resourceAttributes (entry_of toString (rl, sl, r)) = Map.empty)
               \<and> (\<forall>res. resource rl = Some res \<and> Resource.attributes res = None \<longrightarrow>
                    LogEntry.resourceAttributes (entry_of toString (rl, sl, r)) = Map.empty)
               \<and> (scope sl = None \<longrightarrow>
                    LogEntry.scopeAttributes (entry_of toString (rl, sl, r)) = Map.empty)
               \<and> (\<forall>sc. scope sl = Some sc \<and> IInstrumentationScope.attributes sc = None \<longrightarrow>
                    LogEntry.scopeAttributes (entry_of toString (rl, sl, r)) = synthetic_only sc)
               \<and> (ILogRecord.attributes r = None \<longrightarrow>
                    LogEntry.attributes (entry_of toString (rl, sl, r)) = Map.empty))"
proof -
  let ?us = "map (entry_of toString) (owners data)"
  let ?es = "sort_key (\<lambda>a. - timeOf Number a) ?us"
  have ret: "fetchLogs toString Number data = Inr ?es"
    using assms by (simp add: fetchLogs_eq)
  have len: "length ?es = count_LogRecords data"
    by (simp add: length_owners)
  have perm: "mset ?es = mset ?us"
    by simp
  have maps: "\<forall>(rl, sl, r) \<in> set (owners data).
                 (resource rl = None \<longrightarrow>
                    LogEntry.resourceAttributes (entry_of toString (rl, sl, r)) = Map.empty)
               \<and> (\<forall>res. resource rl = Some res \<and> Resource.attributes res = None \<longrightarrow>
                    LogEntry.resourceAttributes (entry_of toString (rl, sl, r)) = Map.empty)
               \<and> (scope sl = None \<longrightarrow>
                    LogEntry.scopeAttributes (entry_of toString (rl, sl, r)) = Map.empty)
               \<and> (\<forall>sc. scope sl = Some sc \<and> IInstrumentationScope.attributes sc = None \<longrightarrow>
                    LogEntry.scopeAttributes (entry_of toString (rl, sl, r)) = synthetic_only sc)
               \<and> (ILogRecord.attributes r = None \<longrightarrow>
                    LogEntry.attributes (entry_of toString (rl, sl, r)) = Map.empty)"
  proof (clarify, intro conjI allI impI)
    fix rl sl r
    assume mem: "(rl, sl, r) \<in> set (owners data)"
    then have t: "has_time r"
      using assms by (auto simp: every_record_has_time_def list_all_iff)
    note f = entry_of_fields [OF t, of toString rl sl]
    show "LogEntry.resourceAttributes (entry_of toString (rl, sl, r)) = Map.empty"
      if "resource rl = None"
      using that by (simp add: f resourceAttributes_of_def)
    show "LogEntry.resourceAttributes (entry_of toString (rl, sl, r)) = Map.empty"
      if "resource rl = Some res \<and> Resource.attributes res = None" for res
      using that by (simp add: f resourceAttributes_of_def forEach_attributes_None)
    show "LogEntry.scopeAttributes (entry_of toString (rl, sl, r)) = Map.empty"
      if "scope sl = None"
      using that by (simp add: f scopeAttributes_of_def)
    show "LogEntry.scopeAttributes (entry_of toString (rl, sl, r)) = synthetic_only sc"
      if "scope sl = Some sc \<and> IInstrumentationScope.attributes sc = None" for sc
      using that by (simp add: f scopeAttributes_of_no_attributes)
    show "LogEntry.attributes (entry_of toString (rl, sl, r)) = Map.empty"
      if "ILogRecord.attributes r = None"
      using that by (simp add: f forEach_attributes_None)
  qed
  from ret len perm maps show ?thesis by blast
qed

text \<open>The theorem on Scenario A, where resource, scope attributes and record attributes
  are absent.\<close>

theorem fetchLogs_count_witness:
  "every_record_has_time payload_A
   \<and> count_LogRecords payload_A = 2
   \<and> (\<exists>es. fetchLogs toString_decimal Number_decimal payload_A = Inr es \<and> length es = 2)"
proof -
  have "count_LogRecords payload_A = 2"
    by (simp add: count_LogRecords_def payload_A_def the_list_simps)
  then show ?thesis
    using fetchLogs_count [OF every_record_has_time_A, of toString_decimal Number_decimal]
    by (auto simp: every_record_has_time_A)
qed

text \<open>
  Claim C1 as stated fails on Scenario A of the specification: the scope has no attributes
  array, and the scope attribute object of the produced entries is not empty, since it
  holds the synthetic keys.
\<close>

theorem fetchLogs_scope_attributes_counterexample:
  "scope_A = \<lparr> name = Some ''svc'', version = Some ''1.0'', IInstrumentationScope.attributes = None \<rparr>
   \<and> fetchLogs toString_decimal Number_decimal payload_A =
       Inr [entry_A ''2000000000'' ''world'', entry_A ''1000000000'' ''hello'']
   \<and> LogEntry.scopeAttributes (entry_A ''2000000000'' ''world'') ''scope.name'' = Some (VString ''svc'')
   \<and> LogEntry.scopeAttributes (entry_A ''2000000000'' ''world'') \<noteq> Map.empty"
  using fetchLogs_payload_A by (simp add: scope_A_def entry_A_def)

subsection \<open>Sort order\<close>

lemma sorted_neg_nth:
  assumes "sorted (map (\<lambda>a. - k a) es)" "i \<le> j" "j < length es"
  shows "(k (es ! j) :: rat) \<le> k (es ! i)"
proof -
  have "map (\<lambda>a. - k a) es ! i \<le> map (\<lambda>a. - k a) es ! j"
    using assms by (intro sorted_nth_mono) simp_all
  then show ?thesis using assms by simp
qed

text \<open>
  Where \<open>fetchLogs\<close> returns, its output is sorted by the numeric \<open>timeUnixNano\<close>, newest
  first: of two adjacent entries the first has the greater or equal time. The sort is
  stable: the entries of equal time keep the order in which the loops produced them. An
  entry whose \<open>timeUnixNano\<close> is falsy has the time 0, and no entry of positive time comes
  after an entry of time 0.
\<close>

theorem fetchLogs_sorted:
  assumes "fetchLogs toString Number data = Inr es"
  shows "(\<forall>i. Suc i < length es \<longrightarrow> timeOf Number (es ! Suc i) \<le> timeOf Number (es ! i))
       \<and> (\<exists>us. collect toString data = Inr us \<and> mset es = mset us
              \<and> (\<forall>t. filter (\<lambda>e. timeOf Number e = t) es = filter (\<lambda>e. timeOf Number e = t) us))
       \<and> (\<forall>e \<in> set es. \<not> truthy_time (LogEntry.timeUnixNano e) \<longrightarrow> timeOf Number e = 0)
       \<and> (\<forall>i j. i < j \<and> j < length es \<and> timeOf Number (es ! i) = 0
              \<longrightarrow> timeOf Number (es ! j) \<le> 0)"
proof -
  obtain us where us: "collect toString data = Inr us"
    and es: "es = sort_key (\<lambda>a. - timeOf Number a) us"
    using assms by (auto simp: fetchLogs_def Array_sort_newest_first split: sum.splits)
  have srt: "sorted (map (\<lambda>a. - timeOf Number a) es)"
    unfolding es by (rule sorted_sort_key)
  have adj: "\<forall>i. Suc i < length es \<longrightarrow> timeOf Number (es ! Suc i) \<le> timeOf Number (es ! i)"
    using sorted_neg_nth [OF srt] by simp
  have stable: "filter (\<lambda>e. timeOf Number e = t) es = filter (\<lambda>e. timeOf Number e = t) us" for t
    using sort_key_stable [of "\<lambda>a. - timeOf Number a" "- t" us] by (simp add: es)
  have perm: "mset es = mset us"
    by (simp add: es)
  have zero: "\<forall>e \<in> set es. \<not> truthy_time (LogEntry.timeUnixNano e) \<longrightarrow> timeOf Number e = 0"
    by (simp add: timeOf_def)
  have last: "\<forall>i j. i < j \<and> j < length es \<and> timeOf Number (es ! i) = 0
              \<longrightarrow> timeOf Number (es ! j) \<le> 0"
  proof (intro allI impI)
    fix i j
    assume h: "i < j \<and> j < length es \<and> timeOf Number (es ! i) = 0"
    then have "timeOf Number (es ! j) \<le> timeOf Number (es ! i)"
      using sorted_neg_nth [OF srt, of i j] by simp
    with h show "timeOf Number (es ! j) \<le> 0" by simp
  qed
  from us perm stable adj zero last show ?thesis by blast
qed

theorem fetchLogs_sorted_witness:
  "fetchLogs toString_decimal Number_decimal payload_A =
     Inr [entry_A ''2000000000'' ''world'', entry_A ''1000000000'' ''hello'']
   \<and> timeOf Number_decimal (entry_A ''1000000000'' ''hello'')
       \<le> timeOf Number_decimal (entry_A ''2000000000'' ''world'')
   \<and> timeOf Number_decimal (entry_A ''2000000000'' ''world'') = 2000000000"
proof -
  have "Suc 0 < length [entry_A ''2000000000'' ''world'', entry_A ''1000000000'' ''hello'']
        \<longrightarrow> timeOf Number_decimal
              ([entry_A ''2000000000'' ''world'', entry_A ''1000000000'' ''hello''] ! Suc 0)
            \<le> timeOf Number_decimal
              ([entry_A ''2000000000'' ''world'', entry_A ''1000000000'' ''hello''] ! 0)"
    using fetchLogs_sorted [OF fetchLogs_payload_A] by blast
  then have "timeOf Number_decimal (entry_A ''1000000000'' ''hello'')
       \<le> timeOf Number_decimal (entry_A ''2000000000'' ''world'')"
    by simp
  moreover have "timeOf Number_decimal (entry_A ''2000000000'' ''world'') = 2000000000"
    by (simp add: timeOf_def entry_A_def truthy_time_def toNumber_def Number_decimal_def)
  ultimately show ?thesis using fetchLogs_payload_A by simp
qed

text \<open>
  Claim C6. The claim is that the output of \<open>fetchLogs\<close> is sorted by time, newest first,
  and that an entry with an absent time compares as 0 and sorts last. On the payload
  \<open>payload_mixed_time\<close>, a record of the time 2000000000 before a record without
  \<open>timeUnixNano\<close>, the code throws a \<open>TypeError\<close> at \<open>logRecord.timeUnixNano.toString()\<close>
  while it builds the second entry: no sequence is returned, and the record without time
  is not sorted last.
\<close>

theorem fetchLogs_absent_time_not_sorted_last:
  "fetchLogs toString Number payload_mixed_time = Inl TypeError"
  by (simp add: fetchLogs_eq every_record_has_time_def owners_def payload_mixed_time_def
      the_list_simps has_time_def log_record_def)

subsection \<open>Scope name and version\<close>

lemma scopeAttributes_of_synthetic:
  assumes "scope sl = Some sc"
  shows "truthy_string (name sc) \<Longrightarrow>
           scopeAttributes_of sl ''scope.name'' = Some (VString (the (name sc)))"
    and "truthy_string (version sc) \<Longrightarrow>
           scopeAttributes_of sl ''scope.version'' = Some (VString (the (version sc)))"
  using assms by (simp_all add: scopeAttributes_of_def Let_def)

text \<open>
  Claim C9. For every \<open>ScopeLogs\<close> whose scope provides a (non-empty) name or version,
  the scope attribute object of every entry produced under it maps \<open>scope.name\<close> and
  \<open>scope.version\<close> to them, whatever the attributes of the scope are: the synthetic keys
  are assigned last.
\<close>

theorem scope_metadata_wins:
  assumes "every_record_has_time data"
  shows "\<exists>es. fetchLogs toString Number data = Inr es
           \<and> mset es = mset (map (entry_of toString) (owners data))
           \<and> (\<forall>(rl, sl, r) \<in> set (owners data). \<forall>sc. scope sl = Some sc \<longrightarrow>
                 (truthy_string (name sc) \<longrightarrow>
                    LogEntry.scopeAttributes (entry_of toString (rl, sl, r)) ''scope.name''
                      = Some (VString (the (name sc))))
               \<and> (truthy_string (version sc) \<longrightarrow>
                    LogEntry.scopeAttributes (entry_of toString (rl, sl, r)) ''scope.version''
                      = Some (VString (the (version sc)))))"
proof -
  let ?us = "map (entry_of toString) (owners data)"
  let ?es = "sort_key (\<lambda>a. - timeOf Number a) ?us"
  have ret: "fetchLogs toString Number data = Inr ?es"
    using assms by (simp add: fetchLogs_eq)
  have perm: "mset ?es = mset ?us"
    by simp
  have syn: "\<forall>(rl, sl, r) \<in> set (owners data). \<forall>sc. scope sl = Some sc \<longrightarrow>
                 (truthy_string (name sc) \<longrightarrow>
                    LogEntry.scopeAttributes (entry_of toString (rl, sl, r)) ''scope.name''
                      = Some (VString (the (name sc))))
               \<and> (truthy_string (version sc) \<longrightarrow>
                    LogEntry.scopeAttributes (entry_of toString (rl, sl, r)) ''scope.version''
                      = Some (VString (the (version sc))))"
  proof (clarify, intro conjI impI)
    fix rl sl r sc
    assume mem: "(rl, sl, r) \<in> set (owners data)" and sc: "scope sl = Some sc"
    from mem have t: "has_time r"
      using assms by (auto simp: every_record_has_time_def list_all_iff)
    note f = entry_of_fields(2) [OF t, of toString rl sl]
    show "LogEntry.scopeAttributes (entry_of toString (rl, sl, r)) ''scope.name''
            = Some (VString (the (name sc)))" if "truthy_string (name sc)"
      using that by (simp add: f scopeAttributes_of_synthetic [OF sc])
    show "LogEntry.scopeAttributes (entry_of toString (rl, sl, r)) ''scope.version''
            = Some (VString (the (version sc)))" if "truthy_string (version sc)"
      using that by (simp add: f scopeAttributes_of_synthetic [OF sc])
  qed
  from ret perm syn show ?thesis by blast
qed

text \<open>On \<open>payload_B\<close> the scope has an attribute named \<open>scope.name\<close> of value \<open>other\<close>; the
  entries carry the name of the scope.\<close>

lemma scopes_payload_B: "\<forall>(rl, sl, r) \<in> set (owners payload_B). scope sl = Some scope_B"
  by (simp add: owners_def payload_B_def the_list_simps)

theorem scope_metadata_wins_witness:
  "every_record_has_time payload_B
   \<and> map key (the (IInstrumentationScope.attributes scope_B)) = [Some ''scope.name'', Some '''']
   \<and> (\<exists>es. fetchLogs toString_decimal Number_decimal payload_B = Inr es
          \<and> list_all (\<lambda>e. LogEntry.scopeAttributes e ''scope.name'' = Some (VString ''svc'')
                        \<and> LogEntry.scopeAttributes e ''scope.version'' = Some (VString ''1.0'')) es)"
proof -
  obtain es where ret: "fetchLogs toString_decimal Number_decimal payload_B = Inr es"
    and perm: "mset es = mset (map (entry_of toString_decimal) (owners payload_B))"
    and syn: "\<forall>(rl, sl, r) \<in> set (owners payload_B). \<forall>sc. scope sl = Some sc \<longrightarrow>
                 (truthy_string (name sc) \<longrightarrow>
                    LogEntry.scopeAttributes (entry_of toString_decimal (rl, sl, r)) ''scope.name''
                      = Some (VString (the (name sc))))
               \<and> (truthy_string (version sc) \<longrightarrow>
                    LogEntry.scopeAttributes (entry_of toString_decimal (rl, sl, r)) ''scope.version''
                      = Some (VString (the (version sc))))"
    using scope_metadata_wins [OF every_record_has_time_B, of toString_decimal Number_decimal]
    by blast
  have tr: "truthy_string (name scope_B)" "truthy_string (version scope_B)"
    "the (name scope_B) = ''svc''" "the (version scope_B) = ''1.0''"
    by (simp_all add: scope_B_def truthy_string_def)
  have "LogEntry.scopeAttributes e ''scope.name'' = Some (VString ''svc'')
        \<and> LogEntry.scopeAttributes e ''scope.version'' = Some (VString ''1.0'')"
    if "e \<in> set es" for e
  proof -
    from that perm have "e \<in> set (map (entry_of toString_decimal) (owners payload_B))"
      by (metis set_mset_mset)
    then obtain rl sl r where mem: "(rl, sl, r) \<in> set (owners payload_B)"
      and e: "e = entry_of toString_decimal (rl, sl, r)"
      by auto
    from mem scopes_payload_B have "scope sl = Some scope_B" by blast
    with syn mem tr show ?thesis unfolding e by fastforce
  qed
  then have "list_all (\<lambda>e. LogEntry.scopeAttributes e ''scope.name'' = Some (VString ''svc'')
                        \<and> LogEntry.scopeAttributes e ''scope.version'' = Some (VString ''1.0'')) es"
    by (simp add: list_all_iff)
  moreover have "map key (the (IInstrumentationScope.attributes scope_B)) = [Some ''scope.name'', Some '''']"
    by (simp add: scope_B_def)
  ultimately show ?thesis using ret every_record_has_time_B by blast
qed

subsection \<open>Attribute pairs without key\<close>

lemma foldl_setAttribute_keyed:
  "foldl setAttribute obj (filter (\<lambda>attr. truthy_string (key attr)) kvs) = foldl setAttribute obj kvs"
  by (induction kvs arbitrary: obj) (simp_all add: setAttribute_def)

lemma forEach_attributes_keyed:
  "forEach_attributes (keyed attrs) obj = forEach_attributes attrs obj"
  by (cases attrs) (simp_all add: forEach_attributes_def keyed_def foldl_setAttribute_keyed)

lemma resourceAttributes_of_keyed:
  "resourceAttributes_of (keyed_resourceLog rl) = resourceAttributes_of rl"
  by (cases "resource rl")
     (simp_all add: resourceAttributes_of_def keyed_resourceLog_def keyed_resource_def
       forEach_attributes_keyed)

lemma scopeAttributes_of_keyed:
  "scopeAttributes_of (keyed_scopeLog sl) = scopeAttributes_of sl"
  by (cases "scope sl")
     (auto simp: scopeAttributes_of_def keyed_scopeLog_def keyed_scope_def
       forEach_attributes_keyed Let_def)

lemma toLogEntry_keyed:
  "toLogEntry ts ra sa (keyed_record r) = toLogEntry ts ra sa r"
  by (simp add: toLogEntry_def keyed_record_def forEach_attributes_keyed split: sum.splits)



lemma entry_of_keyed: "entry_of ts (keyed_owner w) = entry_of ts w"
  by (cases w)
     (simp add: entry_of_def keyed_owner_def resourceAttributes_of_keyed scopeAttributes_of_keyed
       toLogEntry_keyed)

lemma has_time_keyed: "has_time (snd (snd (keyed_owner w))) = has_time (snd (snd w))"
  by (simp add: keyed_owner_def has_time_def keyed_record_def)

lemma owners_keyed: "owners (keyed_payload data) = map keyed_owner (owners data)"
proof -
  have rec: "the_list (logRecords (keyed_scopeLog sl)) = map keyed_record (the_list (logRecords sl))"
    for sl
    by (cases "logRecords sl") (simp_all add: keyed_scopeLog_def the_list_simps)
  have sls: "the_list (scopeLogs (keyed_resourceLog rl)) = map keyed_scopeLog (the_list (scopeLogs rl))"
    for rl
    by (cases "scopeLogs rl") (simp_all add: keyed_resourceLog_def the_list_simps)
  have rls: "the_list (resourceLogs (keyed_payload data)) =
               map keyed_resourceLog (the_list (resourceLogs data))"
    by (cases "resourceLogs data") (simp_all add: keyed_payload_def the_list_simps)
  show ?thesis
    by (simp add: owners_def rec sls rls map_concat o_def keyed_owner_def)
qed

lemma no_empty_key_foldl:
  "'''' \<notin> dom obj \<Longrightarrow> '''' \<notin> dom (foldl setAttribute obj kvs)"
proof (induction kvs arbitrary: obj)
  case Nil
  then show ?case by simp
next
  case (Cons a kvs)
  have "'''' \<notin> dom (setAttribute obj a)"
    using Cons.prems by (auto simp: setAttribute_def truthy_string_def split: option.splits)
  then show ?case using Cons.IH by simp
qed

lemma no_empty_key_forEach:
  "'''' \<notin> dom obj \<Longrightarrow> '''' \<notin> dom (forEach_attributes attrs obj)"
  by (cases attrs) (simp_all add: forEach_attributes_def no_empty_key_foldl)

lemma no_empty_key_resource: "'''' \<notin> dom (resourceAttributes_of rl)"
  by (cases "resource rl") (simp_all add: resourceAttributes_of_def no_empty_key_forEach)

lemma no_empty_key_scope: "'''' \<notin> dom (scopeAttributes_of sl)"
proof (cases "scope sl")
  case None
  then show ?thesis by (simp add: scopeAttributes_of_def)
next
  case (Some sc)
  have "'''' \<notin> dom (forEach_attributes (IInstrumentationScope.attributes sc) Map.empty)"
    by (simp add: no_empty_key_forEach)
  then show ?thesis using Some by (auto simp: scopeAttributes_of_def Let_def)
qed

text \<open>
  Claim C10. In every entry that \<open>fetchLogs\<close> produces, no key of \<open>attributes\<close>,
  \<open>resourceAttributes\<close> and \<open>scopeAttributes\<close> is the empty string, and \<open>fetchLogs\<close> returns
  the same on the payload and on the payload without the attribute pairs whose key is
  absent or empty.
\<close>

theorem keyless_attributes_omitted:
  "fetchLogs toString Number (keyed_payload data) = fetchLogs toString Number data
   \<and> (\<forall>es. fetchLogs toString Number data = Inr es \<longrightarrow>
         (\<forall>e \<in> set es. '''' \<notin> dom (LogEntry.attributes e)
                       \<and> '''' \<notin> dom (LogEntry.resourceAttributes e)
                       \<and> '''' \<notin> dom (LogEntry.scopeAttributes e)))"
proof (intro conjI allI impI ballI)
  have "every_record_has_time (keyed_payload data) = every_record_has_time data"
    by (simp add: every_record_has_time_def owners_keyed list_all_iff has_time_keyed)
  then show "fetchLogs toString Number (keyed_payload data) = fetchLogs toString Number data"
    by (simp add: fetchLogs_eq owners_keyed o_def entry_of_keyed)
next
  fix es e
  assume ret: "fetchLogs toString Number data = Inr es" and e: "e \<in> set es"
  from ret have ok: "every_record_has_time data"
    and es: "es = sort_key (\<lambda>a. - timeOf Number a) (map (entry_of toString) (owners data))"
    by (auto simp: fetchLogs_eq split: if_splits)
  from e es obtain w where w: "w \<in> set (owners data)" and ew: "e = entry_of toString w"
    by auto
  obtain rl sl r where wt: "w = (rl, sl, r)" by (cases w)
  from ok w wt have t: "has_time r"
    by (auto simp: every_record_has_time_def list_all_iff)
  note f = entry_of_fields [OF t, of toString rl sl]
  show "'''' \<notin> dom (LogEntry.attributes e)"
    unfolding ew wt f by (simp add: no_empty_key_forEach)
  show "'''' \<notin> dom (LogEntry.resourceAttributes e)"
    unfolding ew wt f by (rule no_empty_key_resource)
  show "'''' \<notin> dom (LogEntry.scopeAttributes e)"
    unfolding ew wt f by (rule no_empty_key_scope)
qed

lemma keyed_payload_B_differs: "keyed_payload payload_B \<noteq> payload_B"
  by (simp add: keyed_payload_def payload_B_def keyed_resourceLog_def keyed_resource_def
      resource_B_def keyed_def truthy_string_def)

theorem keyless_attributes_omitted_witness:
  "keyed_payload payload_B \<noteq> payload_B
   \<and> fetchLogs toString_decimal Number_decimal (keyed_payload payload_B)
       = fetchLogs toString_decimal Number_decimal payload_B
   \<and> (\<exists>es. fetchLogs toString_decimal Number_decimal payload_B = Inr es \<and> length es = 2
          \<and> list_all (\<lambda>e. '''' \<notin> dom (LogEntry.attributes e)
                        \<and> '''' \<notin> dom (LogEntry.resourceAttributes e)
                        \<and> '''' \<notin> dom (LogEntry.scopeAttributes e)) es)"
proof -
  have ret: "fetchLogs toString_decimal Number_decimal payload_B =
          Inr (sort_key (\<lambda>a. - timeOf Number_decimal a)
                 (map (entry_of toString_decimal) (owners payload_B)))"
    by (simp add: fetchLogs_eq every_record_has_time_B)
  have len: "length (owners payload_B) = 2"
    by (simp add: owners_def payload_B_def the_list_simps)
  show ?thesis
    using keyless_attributes_omitted [of toString_decimal Number_decimal payload_B]
      keyed_payload_B_differs len
    unfolding ret list_all_iff by auto
qed

subsection \<open>The counting loop\<close>

lemma countLog_eq:
  "countLog N m sz nb bs e =
     (case counted_in N m sz nb (length bs) e of
        None \<Rightarrow> bs
      | Some j \<Rightarrow> bs[j := (bs ! j)\<lparr>Bucket.count := Bucket.count (bs ! j) + 1\<rparr>])"
  by (simp add: countLog_def counted_in_def split: jsnum.splits)

lemma counted_in_less: "counted_in N m sz nb n e = Some j \<Longrightarrow> j < n"
proof -
  have "nat \<lfloor>i\<rfloor> < n" if "0 \<le> i" "i < of_nat n" for i :: rat
  proof -
    have "\<lfloor>i\<rfloor> < int n" using that by (simp add: floor_less_iff)
    then show ?thesis using that by simp
  qed
  then show "counted_in N m sz nb n e = Some j \<Longrightarrow> j < n"
    by (auto simp: counted_in_def split: if_splits jsnum.splits)
qed

lemma length_countLog: "length (countLog N m sz nb bs e) = length bs"
  by (simp add: countLog_eq split: option.splits)

lemma length_foldl_countLog: "length (foldl (countLog N m sz nb) bs logs) = length bs"
  by (induction logs arbitrary: bs) (simp_all add: length_countLog)

lemma count_countLog:
  assumes "j < length bs"
  shows "Bucket.count (countLog N m sz nb bs e ! j) =
           Bucket.count (bs ! j) + (if counted_in N m sz nb (length bs) e = Some j then 1 else 0)"
  using assms by (auto simp: countLog_eq nth_list_update split: option.splits)

lemma count_foldl_countLog:
  assumes "j < length bs"
  shows "Bucket.count (foldl (countLog N m sz nb) bs logs ! j) =
           Bucket.count (bs ! j)
             + length (filter (\<lambda>e. counted_in N m sz nb (length bs) e = Some j) logs)"
  using assms
proof (induction logs arbitrary: bs)
  case Nil
  then show ?case by simp
next
  case (Cons e logs)
  have j: "j < length (countLog N m sz nb bs e)"
    using Cons.prems by (simp add: length_countLog)
  show ?case
    using Cons.IH [OF j] Cons.prems
    by (simp add: length_countLog count_countLog)
qed

lemma sum_countLog:
  "sum_list (map Bucket.count (countLog N m sz nb bs e)) =
     sum_list (map Bucket.count bs) + (if counted_in N m sz nb (length bs) e = None then 0 else 1)"
proof (cases "counted_in N m sz nb (length bs) e")
  case None
  then show ?thesis by (simp add: countLog_eq)
next
  case (Some j)
  then have j: "j < length bs" by (rule counted_in_less)
  have "map Bucket.count (bs[j := (bs ! j)\<lparr>Bucket.count := Bucket.count (bs ! j) + 1\<rparr>])
          = (map Bucket.count bs)[j := Bucket.count (bs ! j) + 1]"
    by (simp add: map_update)
  then show ?thesis
    using Some j by (simp add: countLog_eq sum_list_update)
qed

lemma sum_foldl_countLog:
  "sum_list (map Bucket.count (foldl (countLog N m sz nb) bs logs)) =
     sum_list (map Bucket.count bs)
       + length (filter (\<lambda>e. counted_in N m sz nb (length bs) e \<noteq> None) logs)"
proof (induction logs arbitrary: bs)
  case Nil
  then show ?case by simp
next
  case (Cons e logs)
  show ?case
    by (simp add: Cons.IH sum_countLog length_countLog)
qed

lemma sorted_first_Min:
  assumes "sorted (ys :: 'a::linorder list)" "ys \<noteq> []"
  shows "ys ! 0 = Min (set ys)"
proof (rule Min_eqI [symmetric])
  show "finite (set ys)" by simp
  show "ys ! 0 \<in> set ys" using assms(2) by simp
  fix y assume "y \<in> set ys"
  then obtain i where "i < length ys" "y = ys ! i" by (auto simp: in_set_conv_nth)
  then show "ys ! 0 \<le> y" using sorted_nth_mono [OF assms(1), of 0 i] by simp
qed

lemma sorted_last_Max:
  assumes "sorted (ys :: 'a::linorder list)" "ys \<noteq> []"
  shows "ys ! (length ys - 1) = Max (set ys)"
proof (rule Max_eqI [symmetric])
  have len: "0 < length ys" using assms(2) by simp
  show "finite (set ys)" by simp
  show "ys ! (length ys - 1) \<in> set ys" using len by simp
  fix y assume "y \<in> set ys"
  then obtain i where "i < length ys" "y = ys ! i" by (auto simp: in_set_conv_nth)
  then show "y \<le> ys ! (length ys - 1)"
    using sorted_nth_mono [OF assms(1), of i "length ys - 1"] by simp
qed

lemma sort_key_first_last:
  assumes "xs \<noteq> []"
  shows "k (sort_key k xs ! 0) = Min (k ` set xs)"
    and "k (sort_key k xs ! (length (sort_key k xs) - 1)) = Max (k ` set xs)"
proof -
  let ?zs = "sort_key k xs"
  have len: "0 < length ?zs"
    using assms by (metis length_sort length_greater_0_conv)
  then have ne: "map k ?zs \<noteq> []"
    by (metis length_map length_greater_0_conv)
  have srt: "sorted (map k ?zs)" by (rule sorted_sort_key)
  have "map k ?zs ! 0 = Min (set (map k ?zs))"
    using srt ne by (rule sorted_first_Min)
  moreover have "map k ?zs ! 0 = k (?zs ! 0)"
    using len by (rule nth_map)
  ultimately show "k (?zs ! 0) = Min (k ` set xs)" by simp
  have "map k ?zs ! (length (map k ?zs) - 1) = Max (set (map k ?zs))"
    using srt ne by (rule sorted_last_Max)
  moreover have "map k ?zs ! (length ?zs - 1) = k (?zs ! (length ?zs - 1))"
    using len by (intro nth_map) simp
  ultimately show "k (?zs ! (length ?zs - 1)) = Max (k ` set xs)" by simp
qed

subsection \<open>\<open>histogramData\<close> in closed form\<close>

lemma histogramData_degenerate:
  assumes "logs = [] \<or> minTime_of N logs = 0 \<or> maxTime_of N logs = 0"
  shows "histogramData fmt N logs = []"
  using assms sort_key_first_last [of logs "timeOf N"]
  by (auto simp: histogramData_def Array_sort_oldest_first minTime_of_def maxTime_of_def Let_def)

lemma histogramData_nondegenerate:
  assumes "logs \<noteq> []" "minTime_of N logs \<noteq> 0" "maxTime_of N logs \<noteq> 0"
  shows "histogramData fmt N logs =
     (let lo = minTime_of N logs;
          nb = numBuckets_of ((maxTime_of N logs - lo) / 1000000000);
          sz = (maxTime_of N logs - lo) / of_int nb
      in map (\<lambda>bucket. \<lparr>HistogramBucket.time = fmt (Bucket.time bucket),
                          HistogramBucket.count = Bucket.count bucket\<rparr>)
           (foldl (countLog N lo sz nb)
              (map (\<lambda>i. \<lparr>Bucket.time = lo + of_nat i * sz, Bucket.count = 0\<rparr>) [0..<nat nb])
              logs))"
  using assms sort_key_first_last [of logs "timeOf N"]
  by (simp add: histogramData_def Array_sort_oldest_first minTime_of_def maxTime_of_def Let_def)

lemma numBuckets_of_bounds: "10 \<le> numBuckets_of x" "numBuckets_of x \<le> 20"
  by (simp_all add: numBuckets_of_def)

lemma numBuckets_of_clamp: "numBuckets_of x = clamp \<lceil>x / 5\<rceil> 10 20"
  by (simp add: numBuckets_of_def clamp_def)

lemma length_histogramData:
  assumes "logs \<noteq> []" "minTime_of N logs \<noteq> 0" "maxTime_of N logs \<noteq> 0"
  shows "length (histogramData fmt N logs) =
           nat (numBuckets_of ((maxTime_of N logs - minTime_of N logs) / 1000000000))"
  by (simp add: histogramData_nondegenerate [OF assms] Let_def length_foldl_countLog)

lemma counts_histogramData:
  assumes "logs \<noteq> []" "minTime_of N logs \<noteq> 0" "maxTime_of N logs \<noteq> 0"
    and "nb = numBuckets_of ((maxTime_of N logs - minTime_of N logs) / 1000000000)"
    and "sz = (maxTime_of N logs - minTime_of N logs) / of_int nb"
  shows "map HistogramBucket.count (histogramData fmt N logs) =
           map (\<lambda>j. length (filter (\<lambda>e. counted_in N (minTime_of N logs) sz nb (nat nb) e = Some j) logs))
             [0..<nat nb]"
proof (rule nth_equalityI)
  let ?bs = "map (\<lambda>i. \<lparr>Bucket.time = minTime_of N logs + of_nat i * sz, Bucket.count = 0\<rparr>) [0..<nat nb]"
  have len: "length ?bs = nat nb" by simp
  show "length (map HistogramBucket.count (histogramData fmt N logs)) =
        length (map (\<lambda>j. length (filter (\<lambda>e. counted_in N (minTime_of N logs) sz nb (nat nb) e = Some j) logs))
             [0..<nat nb])"
    using assms(4) by (simp add: length_histogramData [OF assms(1-3)])
  fix j assume "j < length (map HistogramBucket.count (histogramData fmt N logs))"
  then have j: "j < nat nb"
    using assms(4) by (simp add: length_histogramData [OF assms(1-3)])
  then have j': "j < length ?bs" by simp
  have "map HistogramBucket.count (histogramData fmt N logs) ! j =
          Bucket.count (foldl (countLog N (minTime_of N logs) sz nb) ?bs logs ! j)"
    using j assms(4,5)
    by (simp add: histogramData_nondegenerate [OF assms(1-3)] Let_def length_foldl_countLog)
  also have "\<dots> = length (filter (\<lambda>e. counted_in N (minTime_of N logs) sz nb (nat nb) e = Some j) logs)"
    using count_foldl_countLog [OF j', of N "minTime_of N logs" sz nb logs] j by simp
  finally show "map HistogramBucket.count (histogramData fmt N logs) ! j =
     map (\<lambda>j. length (filter (\<lambda>e. counted_in N (minTime_of N logs) sz nb (nat nb) e = Some j) logs))
             [0..<nat nb] ! j"
    using j by simp
qed

lemma sum_histogramData:
  assumes "logs \<noteq> []" "minTime_of N logs \<noteq> 0" "maxTime_of N logs \<noteq> 0"
    and "nb = numBuckets_of ((maxTime_of N logs - minTime_of N logs) / 1000000000)"
    and "sz = (maxTime_of N logs - minTime_of N logs) / of_int nb"
  shows "sum_list (map HistogramBucket.count (histogramData fmt N logs)) =
           length (filter (\<lambda>e. counted_in N (minTime_of N logs) sz nb (nat nb) e \<noteq> None) logs)"
proof -
  let ?bs = "map (\<lambda>i. \<lparr>Bucket.time = minTime_of N logs + of_nat i * sz, Bucket.count = 0\<rparr>) [0..<nat nb]"
  have z: "sum_list (map Bucket.count ?bs) = 0"
    by (simp add: o_def)
  have "map HistogramBucket.count (histogramData fmt N logs) =
          map Bucket.count (foldl (countLog N (minTime_of N logs) sz nb) ?bs logs)"
    using assms(4,5) by (simp add: histogramData_nondegenerate [OF assms(1-3)] Let_def o_def)
  then show ?thesis
    using sum_foldl_countLog [of N "minTime_of N logs" sz nb ?bs logs] z by simp
qed

subsection \<open>Which entries are counted\<close>

lemma timeOf_truthy:
  "timeOf N e \<noteq> 0 \<Longrightarrow> truthy_time (LogEntry.timeUnixNano e)"
  "truthy_time (LogEntry.timeUnixNano e) \<Longrightarrow> toNumber N (the (LogEntry.timeUnixNano e)) = timeOf N e"
  by (auto simp: timeOf_def split: if_splits)

lemma minTime_of_le: "e \<in> set logs \<Longrightarrow> minTime_of N logs \<le> timeOf N e"
  by (simp add: minTime_of_def)

lemma maxTime_of_ge: "e \<in> set logs \<Longrightarrow> timeOf N e \<le> maxTime_of N logs"
  by (simp add: maxTime_of_def)

text \<open>With a positive bucket width every entry at or after the smallest time is counted.\<close>

lemma bucketIndex_of_positive:
  assumes "0 < sz"
  shows "bucketIndex_of m sz nb t = Finite (min (of_int \<lfloor>(t - m) / sz\<rfloor>) (of_int (nb - 1)))"
  using assms by (simp add: bucketIndex_of_def divide_js_def Math_floor_def Math_min_def)

lemma counted_in_positive:
  assumes "0 < sz" "m \<le> timeOf N e" "10 \<le> nb" "truthy_time (LogEntry.timeUnixNano e)"
  shows "counted_in N m sz nb (nat nb) e = Some (nat (min \<lfloor>(timeOf N e - m) / sz\<rfloor> (nb - 1)))"
proof -
  let ?q = "\<lfloor>(timeOf N e - m) / sz\<rfloor>"
  let ?i = "min (of_int ?q) (of_int (nb - 1)) :: rat"
  have q: "0 \<le> ?q" using assms(1,2) by simp
  have i: "?i = of_int (min ?q (nb - 1))" by (simp add: min_def)
  have lo: "0 \<le> min ?q (nb - 1)" using q assms(3) by simp
  have hi: "min ?q (nb - 1) < nb" by simp
  have "0 \<le> ?i" unfolding i using lo by (simp only: of_int_0_le_iff)
  moreover have "?i < of_nat (nat nb)"
  proof -
    have "(of_int (min ?q (nb - 1)) :: rat) < of_int nb" using hi by (simp only: of_int_less_iff)
    moreover have "(of_nat (nat nb) :: rat) = of_int nb" using assms(3) by simp
    ultimately show ?thesis unfolding i by simp
  qed
  moreover have "\<lfloor>?i\<rfloor> = min ?q (nb - 1)" unfolding i by simp
  ultimately show ?thesis
    using assms(4) timeOf_truthy(2) [OF assms(4), of N]
    by (simp add: counted_in_def bucketIndex_of_positive [OF assms(1)])
qed

lemma counted_in_falsy:
  "\<not> truthy_time (LogEntry.timeUnixNano e) \<Longrightarrow> counted_in N m sz nb n e = None"
  by (simp add: counted_in_def)

text \<open>With the bucket width 0 an entry at the smallest time is not counted: its index is
  \<open>NaN\<close>.\<close>

lemma counted_in_zero_width:
  assumes "timeOf N e = m"
  shows "counted_in N m 0 nb n e = None"
proof (cases "truthy_time (LogEntry.timeUnixNano e)")
  case True
  then show ?thesis
    using assms timeOf_truthy(2) [OF True, of N]
    by (simp add: counted_in_def bucketIndex_of_def divide_js_def Math_floor_def Math_min_def)
next
  case False
  then show ?thesis by (rule counted_in_falsy)
qed

lemma one_time_not_counted:
  assumes "logs \<noteq> []" "\<forall>e \<in> set logs. timeOf N e = t" "t \<noteq> 0"
  shows "map HistogramBucket.count (histogramData fmt N logs) = replicate 10 0"
proof -
  have img: "timeOf N ` set logs = {t}"
    using assms(1,2) by (cases logs) auto
  have lo: "minTime_of N logs = t" and hi: "maxTime_of N logs = t"
    by (simp_all add: minTime_of_def maxTime_of_def img)
  have nb: "numBuckets_of ((maxTime_of N logs - minTime_of N logs) / 1000000000) = 10"
    by (simp add: lo hi numBuckets_of_def)
  have cnt: "map HistogramBucket.count (histogramData fmt N logs) =
               map (\<lambda>j. length (filter (\<lambda>e. counted_in N t 0 10 (nat 10) e = Some j) logs)) [0..<nat 10]"
    using counts_histogramData [of logs N 10 0 fmt] assms(1,3) nb by (simp add: lo hi)
  have "filter (\<lambda>e. counted_in N t 0 10 (nat 10) e = Some j) logs = []" for j
    using assms(2) by (simp add: counted_in_zero_width)
  then show ?thesis
    unfolding cnt by (simp add: map_replicate_const)
qed

subsection \<open>Number of buckets\<close>

text \<open>
  Claim C7. For every non-degenerate input (a non-empty sequence whose smallest and largest
  times are not 0) the number of buckets is \<open>clamp(ceil(rangeSeconds / 5), 10, 20)\<close>, where
  \<open>rangeSeconds = (maxTime - minTime) / 1e9\<close>; it lies between 10 and 20.
\<close>

theorem bucket_count_clamped:
  assumes "logs \<noteq> []" "minTime_of Number logs \<noteq> 0" "maxTime_of Number logs \<noteq> 0"
  shows "int (length (histogramData formatTimestamp Number logs)) =
           clamp \<lceil>((maxTime_of Number logs - minTime_of Number logs) / 1000000000) / 5\<rceil> 10 20
       \<and> 10 \<le> length (histogramData formatTimestamp Number logs)
       \<and> length (histogramData formatTimestamp Number logs) \<le> 20"
proof -
  let ?nb = "numBuckets_of ((maxTime_of Number logs - minTime_of Number logs) / 1000000000)"
  have len: "length (histogramData formatTimestamp Number logs) = nat ?nb"
    by (rule length_histogramData [OF assms])
  have b: "10 \<le> ?nb" "?nb \<le> 20" by (rule numBuckets_of_bounds)+
  have "int (nat ?nb) = ?nb" using b by simp
  then have "int (length (histogramData formatTimestamp Number logs)) =
           clamp \<lceil>((maxTime_of Number logs - minTime_of Number logs) / 1000000000) / 5\<rceil> 10 20"
    by (simp only: len numBuckets_of_clamp)
  moreover have "10 \<le> nat ?nb" "nat ?nb \<le> 20" using b by simp_all
  ultimately show ?thesis by (simp only: len)
qed

lemma times_logs_minute:
  "logs_minute \<noteq> []"
  "minTime_of Number_decimal logs_minute = 1700000000000000000"
  "maxTime_of Number_decimal logs_minute = 1700000060000000000"
  by (simp_all add: logs_minute_def minTime_of_def maxTime_of_def timeOf_def entry_at_def
      truthy_time_def toNumber_def Number_decimal_def)

text \<open>Two entries sixty seconds apart give twelve buckets.\<close>

theorem bucket_count_clamped_witness:
  "logs_minute \<noteq> []
   \<and> minTime_of Number_decimal logs_minute = 1700000000000000000
   \<and> maxTime_of Number_decimal logs_minute = 1700000060000000000
   \<and> length (histogramData formatTimestamp_UTC Number_decimal logs_minute) = 12"
proof -
  have "clamp \<lceil>((1700000060000000000 - 1700000000000000000 :: rat) / 1000000000) / 5\<rceil> 10 20 = 12"
    by (simp add: clamp_def)
  then have "int (length (histogramData formatTimestamp_UTC Number_decimal logs_minute)) = 12"
    using bucket_count_clamped [of logs_minute Number_decimal formatTimestamp_UTC]
    by (simp add: times_logs_minute)
  then show ?thesis by (simp add: times_logs_minute)
qed

subsection \<open>Sum of the bucket counts\<close>

lemma counted_iff_truthy:
  assumes "minTime_of N logs < maxTime_of N logs" "e \<in> set logs"
    and "nb = numBuckets_of ((maxTime_of N logs - minTime_of N logs) / 1000000000)"
    and "sz = (maxTime_of N logs - minTime_of N logs) / of_int nb"
  shows "(counted_in N (minTime_of N logs) sz nb (nat nb) e \<noteq> None) = has_truthy_time e"
proof (cases "truthy_time (LogEntry.timeUnixNano e)")
  case True
  have nb: "10 \<le> nb" unfolding assms(3) by (rule numBuckets_of_bounds)
  then have "0 < sz" using assms(1) unfolding assms(4) by simp
  then show ?thesis
    using counted_in_positive [OF _ minTime_of_le [OF assms(2)] nb True, of sz] True
    by (simp add: has_truthy_time_def)
next
  case False
  then show ?thesis by (simp add: counted_in_falsy has_truthy_time_def)
qed

text \<open>
  Claim C3, amended. For a non-empty sequence of entries: when the smallest or the largest
  time is 0, in particular when some entry has an absent or zero time and no time is
  negative, the histogram is empty. When the smallest and the largest time are not 0 and
  differ, the sum of all bucket counts is the number of entries whose \<open>timeUnixNano\<close> is
  truthy; with no negative time this is the number of entries with a defined, non-zero
  time.
\<close>

theorem histogram_total:
  assumes "logs \<noteq> []"
  shows "(minTime_of Number logs = 0 \<or> maxTime_of Number logs = 0 \<longrightarrow>
            histogramData formatTimestamp Number logs = [])
       \<and> ((\<exists>e \<in> set logs. timeOf Number e = 0) \<and> (\<forall>e \<in> set logs. 0 \<le> timeOf Number e) \<longrightarrow>
            histogramData formatTimestamp Number logs = [])
       \<and> (minTime_of Number logs \<noteq> 0 \<and> maxTime_of Number logs \<noteq> 0
            \<and> minTime_of Number logs \<noteq> maxTime_of Number logs \<longrightarrow>
            sum_list (map HistogramBucket.count (histogramData formatTimestamp Number logs))
              = length (filter has_truthy_time logs)
          \<and> ((\<forall>e \<in> set logs. 0 \<le> timeOf Number e) \<longrightarrow>
               sum_list (map HistogramBucket.count (histogramData formatTimestamp Number logs))
                 = length (filter (nonzero_time Number) logs)))"
proof (intro conjI impI)
  show "histogramData formatTimestamp Number logs = []"
    if "minTime_of Number logs = 0 \<or> maxTime_of Number logs = 0"
    using that by (simp add: histogramData_degenerate)
  show "histogramData formatTimestamp Number logs = []"
    if h: "(\<exists>e \<in> set logs. timeOf Number e = 0) \<and> (\<forall>e \<in> set logs. 0 \<le> timeOf Number e)"
  proof -
    have "Min (timeOf Number ` set logs) = 0"
      using h by (intro Min_eqI) auto
    then show ?thesis by (simp add: histogramData_degenerate minTime_of_def)
  qed
  assume nd: "minTime_of Number logs \<noteq> 0 \<and> maxTime_of Number logs \<noteq> 0
            \<and> minTime_of Number logs \<noteq> maxTime_of Number logs"
  obtain e0 where e0: "e0 \<in> set logs" using assms by (cases logs) auto
  have "minTime_of Number logs \<le> maxTime_of Number logs"
    using minTime_of_le [OF e0, of Number] maxTime_of_ge [OF e0, of Number] by simp
  with nd have lt: "minTime_of Number logs < maxTime_of Number logs" by simp
  define nb where "nb = numBuckets_of ((maxTime_of Number logs - minTime_of Number logs) / 1000000000)"
  define sz where "sz = (maxTime_of Number logs - minTime_of Number logs) / of_int nb"
  have "sum_list (map HistogramBucket.count (histogramData formatTimestamp Number logs)) =
          length (filter (\<lambda>e. counted_in Number (minTime_of Number logs) sz nb (nat nb) e \<noteq> None) logs)"
    using nd by (intro sum_histogramData assms nb_def sz_def) simp_all
  also have "filter (\<lambda>e. counted_in Number (minTime_of Number logs) sz nb (nat nb) e \<noteq> None) logs
               = filter has_truthy_time logs"
    by (rule filter_cong [OF refl]) (rule counted_iff_truthy [OF lt _ nb_def sz_def])
  finally show total: "sum_list (map HistogramBucket.count (histogramData formatTimestamp Number logs))
              = length (filter has_truthy_time logs)" .
  assume nonneg: "\<forall>e \<in> set logs. 0 \<le> timeOf Number e"
  have "has_truthy_time e = nonzero_time Number e" if "e \<in> set logs" for e
  proof -
    have "0 \<le> minTime_of Number logs"
      using nonneg assms by (simp add: minTime_of_def)
    with nd minTime_of_le [OF that, of Number] have "0 < timeOf Number e" by simp
    then show ?thesis
      using timeOf_truthy(1) [of Number e] by (simp add: has_truthy_time_def nonzero_time_def)
  qed
  then have "filter has_truthy_time logs = filter (nonzero_time Number) logs"
    by (intro filter_cong [OF refl]) simp
  with total show "sum_list (map HistogramBucket.count (histogramData formatTimestamp Number logs))
                 = length (filter (nonzero_time Number) logs)" by simp
qed

text \<open>Two entries sixty seconds apart: the counts sum to two.\<close>

theorem histogram_total_witness:
  "logs_minute \<noteq> []
   \<and> minTime_of Number_decimal logs_minute = 1700000000000000000
   \<and> maxTime_of Number_decimal logs_minute = 1700000060000000000
   \<and> sum_list (map HistogramBucket.count
        (histogramData formatTimestamp_UTC Number_decimal logs_minute)) = 2
   \<and> length (filter has_truthy_time logs_minute) = 2"
proof -
  have "length (filter has_truthy_time logs_minute) = 2"
    by (simp add: logs_minute_def has_truthy_time_def entry_at_def truthy_time_def)
  then show ?thesis
    using histogram_total [OF times_logs_minute(1), of Number_decimal formatTimestamp_UTC]
    by (simp add: times_logs_minute)
qed

text \<open>
  Claim C3 as stated fails on an entry without time, or of the time 0, followed by an entry
  with a time: the histogram is empty, so the counts sum to 0, and one entry has a defined,
  non-zero time.
\<close>

theorem histogram_total_counterexample:
  "histogramData formatTimestamp_UTC Number_decimal logs_absent_time = []
   \<and> sum_list (map HistogramBucket.count
        (histogramData formatTimestamp_UTC Number_decimal logs_absent_time)) = 0
   \<and> length (filter (nonzero_time Number_decimal) logs_absent_time) = 1
   \<and> histogramData formatTimestamp_UTC Number_decimal logs_zero_time = []
   \<and> sum_list (map HistogramBucket.count
        (histogramData formatTimestamp_UTC Number_decimal logs_zero_time)) = 0
   \<and> length (filter (nonzero_time Number_decimal) logs_zero_time) = 1"
proof -
  have "minTime_of Number_decimal logs_absent_time = 0"
    by (simp add: logs_absent_time_def minTime_of_def timeOf_def entry_at_def truthy_time_def
        toNumber_def Number_decimal_def)
  then have a: "histogramData formatTimestamp_UTC Number_decimal logs_absent_time = []"
    by (simp add: histogramData_degenerate)
  have "minTime_of Number_decimal logs_zero_time = 0"
    by (simp add: logs_zero_time_def minTime_of_def timeOf_def entry_at_def truthy_time_def
        toNumber_def Number_decimal_def)
  then have z: "histogramData formatTimestamp_UTC Number_decimal logs_zero_time = []"
    by (simp add: histogramData_degenerate)
  have "length (filter (nonzero_time Number_decimal) logs_absent_time) = 1"
    by (simp add: logs_absent_time_def nonzero_time_def timeOf_def entry_at_def truthy_time_def
        toNumber_def Number_decimal_def)
  moreover have "length (filter (nonzero_time Number_decimal) logs_zero_time) = 1"
    by (simp add: logs_zero_time_def nonzero_time_def timeOf_def entry_at_def truthy_time_def
        toNumber_def Number_decimal_def)
  ultimately show ?thesis by (simp add: a z)
qed

subsection \<open>Entries of a single time\<close>

text \<open>
  Claim C5. The claim is that entries which all share one non-zero time are all counted in
  bucket 0. On three entries of the time 1700000000000000000 the code computes the bucket
  width 0 and the index \<open>0 / 0 = NaN\<close>, which fails the test \<open>bucketIndex >= 0\<close>: the histogram
  has ten buckets and each has the count 0.
\<close>

theorem histogram_one_time_counts_nothing:
  "length logs_one_time = 3
   \<and> map (timeOf Number_decimal) logs_one_time
       = [1700000000000000000, 1700000000000000000, 1700000000000000000]
   \<and> map HistogramBucket.count (histogramData formatTimestamp Number_decimal logs_one_time)
       = [0, 0, 0, 0, 0, 0, 0, 0, 0, 0]"
proof -
  have t: "map (timeOf Number_decimal) logs_one_time
       = [1700000000000000000, 1700000000000000000, 1700000000000000000]"
    by (simp add: logs_one_time_def timeOf_def entry_at_def truthy_time_def toNumber_def
        Number_decimal_def)
  have ne: "logs_one_time \<noteq> []"
    by (simp add: logs_one_time_def)
  have same: "\<forall>e \<in> set logs_one_time. timeOf Number_decimal e = 1700000000000000000"
    by (simp add: logs_one_time_def timeOf_def entry_at_def truthy_time_def toNumber_def
        Number_decimal_def)
  have "map HistogramBucket.count (histogramData formatTimestamp Number_decimal logs_one_time)
       = replicate 10 0"
    using one_time_not_counted [OF ne same] by simp
  then show ?thesis using t by (simp add: logs_one_time_def numeral_eq_Suc)
qed

subsection \<open>A hundred entries at equal distances\<close>

lemma timeOf_entry_at_Num: "timeOf N (entry_at (Some (Num x))) = x"
  by (simp add: timeOf_def entry_at_def truthy_time_def toNumber_def)

lemma times_logs_spread:
  "map (timeOf N) (logs_spread start step) = map (\<lambda>i. start + of_nat i * step) [0..<100]"
  by (simp add: logs_spread_def timeOf_entry_at_Num o_def)

lemma spread_from_zero:
  assumes "map (timeOf N) logs = map (\<lambda>i. of_nat i * d) [0..<100]" and "0 \<le> d"
  shows "logs \<noteq> []" and "minTime_of N logs = 0"
proof -
  have "length (map (timeOf N) logs) = 100" unfolding assms(1) by simp
  then show "logs \<noteq> []" by auto
  have "set (map (timeOf N) logs) = set (map (\<lambda>i. of_nat i * d) [0..<100])"
    by (simp only: assms(1))
  then have img: "timeOf N ` set logs = (\<lambda>i. of_nat i * d) ` {0..<100}" by simp
  show "minTime_of N logs = 0"
    unfolding minTime_of_def img
  proof (rule Min_eqI)
    show "finite ((\<lambda>i. rat_of_nat i * d) ` {0..<100})" by simp
    show "0 \<le> y" if "y \<in> (\<lambda>i. rat_of_nat i * d) ` {0..<100}" for y
      using that assms(2) by auto
    have "rat_of_nat 0 * d \<in> (\<lambda>i. rat_of_nat i * d) ` {0..<100}"
      by (intro imageI) simp
    then show "0 \<in> (\<lambda>i. rat_of_nat i * d) ` {0..<100}" by simp
  qed
qed

lemma times_logs_spread_zero:
  "map (timeOf N) (logs_spread 0 step) = map (\<lambda>i. of_nat i * step) [0..<100]"
  unfolding times_logs_spread by (simp only: add_0)

text \<open>
  Claim C4, amended. For an input of 100 entries with timestamps uniformly spread from the
  time 0 (the times \<open>i * d\<close> for \<open>i\<close> from 0 to 99 and a step \<open>d\<close> that is not negative; Scenario D
  has the span of ten seconds), the histogram is the empty sequence: the smallest time is
  0, and no bucket is produced.
\<close>

theorem histogram_spread:
  assumes "map (timeOf Number) logs = map (\<lambda>i. of_nat i * d) [0..<100]" and "0 \<le> d"
  shows "histogramData formatTimestamp Number logs = []"
  using spread_from_zero(2) [OF assms] by (simp add: histogramData_degenerate)

text \<open>Scenario D with the step of 100000000 nanoseconds.\<close>

theorem histogram_spread_witness:
  "map (timeOf Number_decimal) (logs_spread 0 100000000)
     = map (\<lambda>i. of_nat i * 100000000) [0..<100]
   \<and> histogramData formatTimestamp_UTC Number_decimal (logs_spread 0 100000000) = []"
proof -
  have d: "(0::rat) \<le> 100000000" by simp
  show ?thesis
    using histogram_spread [OF times_logs_spread_zero d, of formatTimestamp_UTC Number_decimal]
      times_logs_spread_zero [of Number_decimal 100000000]
    by (simp only: simp_thms)
qed

text \<open>
  Claim C4 as stated fails: on the hundred entries spread from the time 0, with the step of
  100000000 nanoseconds, the histogram has no bucket, where the claim has ten buckets of
  count ten.
\<close>

theorem histogram_spread_counterexample:
  "length (logs_spread 0 100000000) = 100
   \<and> minTime_of Number_decimal (logs_spread 0 100000000) = 0
   \<and> length (histogramData formatTimestamp_UTC Number_decimal (logs_spread 0 100000000)) = 0"
proof -
  have d: "(0::rat) \<le> 100000000" by simp
  have m: "minTime_of Number_decimal (logs_spread 0 100000000) = 0"
    by (rule spread_from_zero(2) [OF times_logs_spread_zero d])
  then have "histogramData formatTimestamp_UTC Number_decimal (logs_spread 0 100000000) = []"
    by (simp add: histogramData_degenerate)
  moreover have "length (logs_spread 0 100000000) = 100"
    by (simp add: logs_spread_def)
  ultimately show ?thesis using m by simp
qed

end
